theory Spec2Isabelle
  imports Complex_Main "HOL-Library.Multiset"
begin

section \<open>Exceptions and configuration\<close>

text \<open>
  Python exceptions are values. A call that may raise returns \<open>exn + 'a\<close>:
  \<open>Inl e\<close> means that the exception \<open>e\<close> propagates out of the call,
  \<open>Inr v\<close> means that the call returns \<open>v\<close> normally.

  \<open>Timeout\<close>, \<open>HTTPError\<close> and \<open>ConnectionError\<close> are the subclasses of
  \<open>requests.RequestException\<close> that the code meets; \<open>AsyncTimeoutError\<close> is
  \<open>asyncio.TimeoutError\<close>, \<open>MySQLError\<close> is \<open>mysql.connector.Error\<close>. Every
  constructor is a subclass of Python's \<open>Exception\<close>, so \<open>except Exception\<close>
  catches all of them.
\<close>

datatype exn =
    RequestException string
  | Timeout string
  | HTTPError string
  | ConnectionError string
  | AsyncTimeoutError
  | MySQLError string
  | ValueError string
  | KeyError string
  | IndexError
  | TypeError
  | ZeroDivisionError
  | OtherException string

text \<open>\<open>isinstance(e, requests.RequestException)\<close>\<close>

fun is_RequestException :: "exn \<Rightarrow> bool" where
  "is_RequestException (RequestException _) = True"
| "is_RequestException (Timeout _) = True"
| "is_RequestException (HTTPError _) = True"
| "is_RequestException (ConnectionError _) = True"
| "is_RequestException _ = False"

text \<open>\<open>isinstance(e, requests.Timeout)\<close>\<close>

fun is_Timeout :: "exn \<Rightarrow> bool" where
  "is_Timeout (Timeout _) = True"
| "is_Timeout _ = False"

text \<open>\<open>isinstance(e, mysql.connector.Error)\<close>\<close>

fun is_MySQLError :: "exn \<Rightarrow> bool" where
  "is_MySQLError (MySQLError _) = True"
| "is_MySQLError _ = False"

text \<open>
  The constants of \<open>config.py\<close> that the modelled functions read. They come from
  the environment (\<open>os.getenv\<close>), so they are parameters; \<open>default_config\<close>
  holds the defaults written in \<open>config.py\<close>. Python's \<open>float\<close> is idealised as
  \<open>real\<close>: the thresholds and the ratio of two lengths are exact.
\<close>

record config =
  SCRAPER_RESULTS_PER_CELEBRITY :: int
  SCRAPER_MAX_RETRIES :: int
  CELEBRITIES_PER_BATCH :: int
  MIN_CONFIDENCE_SCORE :: real
  DEFAULT_CONFIDENCE_SCORE :: real
  MIN_CONTENT_LENGTH :: int

definition default_config :: config where
  "default_config =
     \<lparr> SCRAPER_RESULTS_PER_CELEBRITY = 20,
       SCRAPER_MAX_RETRIES = 3,
       CELEBRITIES_PER_BATCH = 20,
       MIN_CONFIDENCE_SCORE = 0.5,
       DEFAULT_CONFIDENCE_SCORE = 0.85,
       MIN_CONTENT_LENGTH = 50 \<rparr>"

section \<open>scraping_pipeline.py: split_into_batches\<close>

text \<open>
  \<^verbatim>\<open>
  batches = []
  for i in range(0, len(celebrities), batch_size):
      batch = celebrities[i:i + batch_size]
      batches.append(batch)
  return batches
  \<close>
  \<open>batches_from xs b i\<close> is the loop from index \<open>i\<close> on, for a positive step
  \<open>b\<close>; the slice \<open>xs[i:i+b]\<close> is \<open>take b (drop i xs)\<close>.
\<close>

function batches_from :: "'a list \<Rightarrow> nat \<Rightarrow> nat \<Rightarrow> 'a list list" where
  "batches_from xs b i =
     (if 0 < b \<and> i < length xs
      then take b (drop i xs) # batches_from xs b (i + b)
      else [])"
  by pat_completeness auto
termination
  by (relation "measure (\<lambda>(xs, b, i). length xs - i)") auto

declare batches_from.simps [simp del]

text \<open>
  \<open>range(0, n, step)\<close> raises \<open>ValueError\<close> for a zero step and is empty for a
  negative step.
\<close>

definition split_into_batches :: "'a list \<Rightarrow> int \<Rightarrow> exn + 'a list list" where
  "split_into_batches celebrities batch_size =
     (if batch_size = 0 then Inl (ValueError ''range() arg 3 must not be zero'')
      else if batch_size < 0 then Inr []
      else Inr (batches_from celebrities (nat batch_size) 0))"

section \<open>text_processor.py\<close>

text \<open>
  A Python \<open>str\<close> holding page content is a list of Unicode code points, so that
  \<open>len\<close> counts code points and the CJK ranges of the regular expression are ranges
  of numbers.
\<close>

type_synonym ustring = "nat list"

text \<open>
  BeautifulSoup and the Unicode tables behind \<open>\w\<close> are libraries outside the
  repository; they are parameters of the model. \<open>parse_lxml\<close> and
  \<open>parse_html_parser\<close> are \<open>BeautifulSoup(html, 'lxml')\<close> and
  \<open>BeautifulSoup(html, 'html.parser')\<close>; \<open>decompose_tag name\<close> is the loop
  \<open>for tag in soup.find_all(name): tag.decompose()\<close>, \<open>decompose_selector\<close> the
  same loop over \<open>soup.select(selector)\<close>; \<open>get_text\<close> is
  \<open>soup.get_text(separator=' ', strip=True)\<close>; \<open>unicode_word\<close> is the class
  \<open>\w\<close> of \<open>re\<close> on \<open>str\<close> patterns. Each call may raise.
\<close>

record 'soup html_lib =
  parse_lxml :: "ustring \<Rightarrow> exn + 'soup"
  parse_html_parser :: "ustring \<Rightarrow> exn + 'soup"
  decompose_tag :: "string \<Rightarrow> 'soup \<Rightarrow> exn + 'soup"
  decompose_selector :: "string \<Rightarrow> 'soup \<Rightarrow> exn + 'soup"
  get_text :: "'soup \<Rightarrow> exn + ustring"
  unicode_word :: "nat \<Rightarrow> bool"

definition REMOVE_TAGS :: "string list" where
  "REMOVE_TAGS = [''script'', ''style'', ''meta'', ''link'', ''noscript'', ''iframe'']"

definition REMOVE_SELECTORS :: "string list" where
  "REMOVE_SELECTORS = [''nav'', ''footer'', ''sidebar'', ''.sidebar'', ''#sidebar'', ''.nav'',
     ''#nav'', ''.header'', ''#header'', ''.advertisement'', ''.ad'']"

fun decompose_each :: "(string \<Rightarrow> 'soup \<Rightarrow> exn + 'soup) \<Rightarrow> string list \<Rightarrow> 'soup \<Rightarrow> exn + 'soup" where
  "decompose_each f [] soup = Inr soup"
| "decompose_each f (n # ns) soup =
     (case f n soup of Inl e \<Rightarrow> Inl e | Inr soup' \<Rightarrow> decompose_each f ns soup')"

text \<open>The part of \<open>clean_html\<close> after parsing: it is outside the two \<open>try\<close> blocks.\<close>

definition extract_text :: "'soup html_lib \<Rightarrow> 'soup \<Rightarrow> exn + ustring" where
  "extract_text lib soup =
     (case decompose_each (decompose_tag lib) REMOVE_TAGS soup of
        Inl e \<Rightarrow> Inl e
      | Inr soup1 \<Rightarrow>
          (case decompose_each (decompose_selector lib) REMOVE_SELECTORS soup1 of
             Inl e \<Rightarrow> Inl e
           | Inr soup2 \<Rightarrow> get_text lib soup2))"

definition clean_html :: "'soup html_lib \<Rightarrow> ustring \<Rightarrow> exn + ustring" where
  "clean_html lib html_content =
     (case parse_lxml lib html_content of
        Inr soup \<Rightarrow> extract_text lib soup
      | Inl e \<Rightarrow>
          (case parse_html_parser lib html_content of
             Inr soup \<Rightarrow> extract_text lib soup
           | Inl e' \<Rightarrow> Inr []))"

text \<open>
  \<open>re.sub(r' +', ' ', text)\<close> turns every maximal run of spaces into one space, and
  \<open>re.sub(r'\n\n+', '\n', text)\<close> turns every run of two or more newlines into one
  newline, which leaves a single newline as it is: both collapse the runs of one
  character.
\<close>

fun collapse_runs :: "nat \<Rightarrow> ustring \<Rightarrow> ustring" where
  "collapse_runs c [] = []"
| "collapse_runs c [x] = [x]"
| "collapse_runs c (x # y # xs) =
     (if x = c \<and> y = c then collapse_runs c (y # xs) else x # collapse_runs c (y # xs))"

text \<open>The characters for which \<open>str.isspace\<close> holds; \<open>str.strip\<close> removes them.\<close>

definition py_isspace :: "nat \<Rightarrow> bool" where
  "py_isspace c \<longleftrightarrow>
     (9 \<le> c \<and> c \<le> 13) \<or> (28 \<le> c \<and> c \<le> 32) \<or> c = 133 \<or> c = 160 \<or> c = 5760
     \<or> (8192 \<le> c \<and> c \<le> 8202) \<or> c = 8232 \<or> c = 8233 \<or> c = 8239 \<or> c = 8287
     \<or> c = 12288"

definition strip :: "ustring \<Rightarrow> ustring" where
  "strip text = rev (dropWhile py_isspace (rev (dropWhile py_isspace text)))"

definition normalize_whitespace :: "ustring \<Rightarrow> ustring" where
  "normalize_whitespace text =
     (let text1 = collapse_runs 32 text;
          text2 = collapse_runs 10 text1;
          text3 = map (\<lambda>c. if c = 9 then 32 else c) text2
      in strip text3)"

text \<open>
  The three ranges of the pattern: CJK Unified Ideographs \<open>U+4E00-U+9FFF\<close>,
  Extension A \<open>U+3400-U+4DBF\<close> and CJK Compatibility Ideographs
  \<open>U+F900-U+FAFF\<close>.
\<close>

definition is_cjk :: "nat \<Rightarrow> bool" where
  "is_cjk c \<longleftrightarrow> (0x4e00 \<le> c \<and> c \<le> 0x9fff) \<or> (0x3400 \<le> c \<and> c \<le> 0x4dbf)
     \<or> (0xf900 \<le> c \<and> c \<le> 0xfaff)"

text \<open>
  The punctuation of the pattern: \<open>- . , ! ? ; : ( )\<close> and the full-width
  \<open>U+FF08 U+FF09 U+3002 U+FF0C U+FF01 U+FF1F U+FF1B U+FF1A U+3010 U+3011 U+300C U+300D
  U+300E U+300F\<close>.
\<close>

definition kept_punctuation :: "nat list" where
  "kept_punctuation = [45, 46, 44, 33, 63, 59, 58, 40, 41,
     0xff08, 0xff09, 0x3002, 0xff0c, 0xff01, 0xff1f, 0xff1b, 0xff1a,
     0x3010, 0x3011, 0x300c, 0x300d, 0x300e, 0x300f]"

definition remove_special_characters :: "'soup html_lib \<Rightarrow> ustring \<Rightarrow> bool \<Rightarrow> ustring" where
  "remove_special_characters lib text preserve_unicode =
     (if preserve_unicode
      then filter (\<lambda>c. unicode_word lib c \<or> py_isspace c \<or> is_cjk c
                        \<or> c \<in> set kept_punctuation) text
      else filter (\<lambda>c. unicode_word lib c \<or> py_isspace c) text)"

text \<open>
  \<open>calculate_confidence_score\<close>. The quotient \<open>cleaned_length / original_length\<close>
  and the thresholds are exact reals here; Python rounds both to doubles, which can
  change a comparison only for lengths beyond the precision of a double.
\<close>

definition calculate_confidence_score :: "config \<Rightarrow> int \<Rightarrow> int \<Rightarrow> real option \<Rightarrow> real" where
  "calculate_confidence_score cfg original_length cleaned_length extraction_rate =
     (if original_length = 0 then MIN_CONFIDENCE_SCORE cfg
      else
        let rate = (case extraction_rate of
                      None \<Rightarrow> (if original_length > 0
                                then real_of_int cleaned_length / real_of_int original_length
                                else 0)
                    | Some r \<Rightarrow> r);
            confidence =
              (if rate \<ge> 0.7 then 0.95
               else if rate \<ge> 0.5 then 0.85
               else if rate \<ge> 0.3 then 0.70
               else if rate \<ge> 0.1 then 0.50
               else MIN_CONFIDENCE_SCORE cfg)
        in min confidence 1.0)"

text \<open>
  The dictionary that \<open>clean_text\<close> returns. The key \<open>error\<close> is present only in
  the result of the \<open>except\<close> branch. The field names carry the prefix \<open>cr_\<close>,
  since other dictionaries of the program use the same keys.
\<close>

record clean_result =
  cr_cleaned_text :: ustring
  cr_content_length :: int
  cr_extraction_confidence :: real
  cr_raw_text_length :: int
  cr_status :: string
  cr_error :: "string option"

text \<open>\<open>str(e)\<close>\<close>

fun str_exn :: "exn \<Rightarrow> string" where
  "str_exn (RequestException m) = m"
| "str_exn (Timeout m) = m"
| "str_exn (HTTPError m) = m"
| "str_exn (ConnectionError m) = m"
| "str_exn AsyncTimeoutError = []"
| "str_exn (MySQLError m) = m"
| "str_exn (ValueError m) = m"
| "str_exn (KeyError m) = m"
| "str_exn IndexError = ''list index out of range''"
| "str_exn TypeError = ''exceptions must derive from BaseException''"
| "str_exn ZeroDivisionError = ''integer modulo by zero''"
| "str_exn (OtherException m) = m"

text \<open>The body of the \<open>try\<close> block of \<open>clean_text\<close>.\<close>

definition clean_text_body :: "config \<Rightarrow> 'soup html_lib \<Rightarrow> ustring \<Rightarrow> exn + clean_result" where
  "clean_text_body cfg lib html_content =
     (case clean_html lib html_content of
        Inl e \<Rightarrow> Inl e
      | Inr raw_text \<Rightarrow>
          let raw_text_length = int (length raw_text) in
          if raw_text_length = 0
          then Inr \<lparr> cr_cleaned_text = [], cr_content_length = 0,
                     cr_extraction_confidence = MIN_CONFIDENCE_SCORE cfg,
                     cr_raw_text_length = 0, cr_status = ''failed'', cr_error = None \<rparr>
          else
            let normalized_text = normalize_whitespace raw_text;
                cleaned_text = remove_special_characters lib normalized_text True;
                cleaned_length = int (length cleaned_text);
                confidence = calculate_confidence_score cfg raw_text_length cleaned_length None;
                status = (if cleaned_length < MIN_CONTENT_LENGTH cfg then ''partial''
                          else ''success'')
            in Inr \<lparr> cr_cleaned_text = cleaned_text, cr_content_length = cleaned_length,
                      cr_extraction_confidence = confidence,
                      cr_raw_text_length = raw_text_length, cr_status = status,
                      cr_error = None \<rparr>)"

text \<open>
  \<open>clean_text\<close>: the \<open>try\<close> block with its handler \<open>except Exception\<close>, which
  catches every exception of the model.
\<close>

definition clean_text :: "config \<Rightarrow> 'soup html_lib \<Rightarrow> ustring \<Rightarrow> exn + clean_result" where
  "clean_text cfg lib html_content =
     (case clean_text_body cfg lib html_content of
        Inr result \<Rightarrow> Inr result
      | Inl e \<Rightarrow>
          Inr \<lparr> cr_cleaned_text = [], cr_content_length = 0,
                cr_extraction_confidence = MIN_CONFIDENCE_SCORE cfg,
                cr_raw_text_length = 0, cr_status = ''error'', cr_error = Some (str_exn e) \<rparr>)"


text \<open>
  A small library instance for concrete evaluation: a document is a flat list of
  elements (tag name, text), removal deletes the elements of that name, and the text
  is the stripped concatenation. \<open>example_html\<close> is the document
  \<^verbatim>\<open><script>alert(1)</script><p>...</p>\<close> whose paragraph holds the five
  ideographs \<open>U+5468 U+6770 U+502B U+65B0 U+805E\<close>; \<open>example_parse\<close> gives
  the elements of that document and of the empty document.
\<close>

definition example_html :: ustring where
  "example_html = [60, 115, 99, 114, 105, 112, 116, 62, 97, 108, 101, 114, 116, 40, 49, 41,
     60, 47, 115, 99, 114, 105, 112, 116, 62, 60, 112, 62,
     0x5468, 0x6770, 0x502b, 0x65b0, 0x805e, 60, 47, 112, 62]"

definition example_text :: ustring where
  "example_text = [0x5468, 0x6770, 0x502b, 0x65b0, 0x805e]"


definition example_parse :: "ustring \<Rightarrow> exn + (string \<times> ustring) list" where
  "example_parse h =
     (if h = example_html
      then Inr [(''script'', [97, 108, 101, 114, 116, 40, 49, 41]), (''p'', example_text)]
      else if h = [] then Inr []
      else Inl (OtherException ''document outside the example''))"

definition example_lib :: "(string \<times> ustring) list html_lib" where
  "example_lib =
     \<lparr> parse_lxml = example_parse,
       parse_html_parser = example_parse,
       decompose_tag = (\<lambda>name soup. Inr (filter (\<lambda>el. fst el \<noteq> name) soup)),
       decompose_selector = (\<lambda>name soup. Inr (filter (\<lambda>el. fst el \<noteq> name) soup)),
       get_text = (\<lambda>soup. Inr (strip (concat (map snd soup)))),
       unicode_word = (\<lambda>c. (48 \<le> c \<and> c \<le> 57) \<or> (65 \<le> c \<and> c \<le> 90) \<or> c = 95
                              \<or> (97 \<le> c \<and> c \<le> 122)) \<rparr>"

section \<open>google_scraper.py: the retry decorator\<close>

text \<open>
  \<^verbatim>\<open>
  def wrapper(*args, **kwargs):
      last_exception = None
      for attempt in range(1, SCRAPER_MAX_RETRIES + 1):
          try:
              return func(*args, **kwargs)
          except requests.RequestException as e:
              last_exception = e
              if attempt < SCRAPER_MAX_RETRIES: ... time.sleep(delay)
              else: logger.error(...)
      raise last_exception
  \<close>
  The state \<open>'s\<close> is everything the wrapped function reads and changes: the object
  it is a method of and the network. \<open>backoff_loop func n last_exception\<close> is the
  loop with \<open>n\<close> iterations left. An exception that is no \<open>RequestException\<close>
  leaves the loop at once; after the last iteration \<open>raise last_exception\<close> raises
  the exception of the last attempt, and \<open>raise None\<close> is a \<open>TypeError\<close>.
  The sleep between two attempts changes nothing that the model observes.
\<close>

fun backoff_loop :: "('s \<Rightarrow> (exn + 'a) \<times> 's) \<Rightarrow> nat \<Rightarrow> exn option \<Rightarrow> 's \<Rightarrow> (exn + 'a) \<times> 's" where
  "backoff_loop func 0 last_exception s =
     (case last_exception of None \<Rightarrow> (Inl TypeError, s) | Some e \<Rightarrow> (Inl e, s))"
| "backoff_loop func (Suc n) last_exception s =
     (case func s of
        (Inr v, s') \<Rightarrow> (Inr v, s')
      | (Inl e, s') \<Rightarrow>
          if is_RequestException e then backoff_loop func n (Some e) s' else (Inl e, s'))"

definition exponential_backoff :: "config \<Rightarrow> ('s \<Rightarrow> (exn + 'a) \<times> 's) \<Rightarrow> 's \<Rightarrow> (exn + 'a) \<times> 's" where
  "exponential_backoff cfg func s = backoff_loop func (nat (SCRAPER_MAX_RETRIES cfg)) None s"

text \<open>The number of calls of \<open>func\<close> that the loop makes: the attempts.\<close>

fun backoff_attempts :: "('s \<Rightarrow> (exn + 'a) \<times> 's) \<Rightarrow> nat \<Rightarrow> 's \<Rightarrow> nat" where
  "backoff_attempts func 0 s = 0"
| "backoff_attempts func (Suc n) s =
     (case func s of
        (Inr v, s') \<Rightarrow> 1
      | (Inl e, s') \<Rightarrow>
          if is_RequestException e then Suc (backoff_attempts func n s') else 1)"

section \<open>google_scraper.py: GoogleSearcher\<close>

text \<open>
  The fields of a \<open>GoogleSearcher\<close> that its methods read or write; the
  \<open>requests\<close> session is part of the network below.
\<close>

record searcher =
  api_keys :: "string list"
  search_engine_ids :: "string list"
  current_key_index :: nat

text \<open>
  \<open>_rotate_api_key\<close>:
  \<open>self.current_key_index = (self.current_key_index + 1) % len(self.api_keys)\<close>.
\<close>

definition rotate_api_key :: "searcher \<Rightarrow> exn + searcher" where
  "rotate_api_key self =
     (if length (api_keys self) = 0 then Inl ZeroDivisionError
      else Inr (self\<lparr>current_key_index :=
                  (current_key_index self + 1) mod length (api_keys self)\<rparr>))"

text \<open>
  The cursor after one rotation of a pool of \<open>k\<close> keys
  (\<open>rotate_api_key_index\<close> of \<open>config.py\<close>), and the searcher after one
  successful rotation.
\<close>

definition rotate_api_key_index :: "nat \<Rightarrow> nat \<Rightarrow> nat" where
  "rotate_api_key_index k current_index = (current_index + 1) mod k"

definition rotated :: "searcher \<Rightarrow> searcher" where
  "rotated self = self\<lparr>current_key_index :=
     rotate_api_key_index (length (api_keys self)) (current_key_index self)\<rparr>"

text \<open>\<open>_get_current_key_pair\<close>\<close>

definition get_current_key_pair :: "searcher \<Rightarrow> exn + string \<times> string" where
  "get_current_key_pair self =
     (if current_key_index self < length (api_keys self)
         \<and> current_key_index self < length (search_engine_ids self)
      then Inr (api_keys self ! current_key_index self,
                search_engine_ids self ! current_key_index self)
      else Inl IndexError)"

text \<open>
  The search provider. A request carries the parameters \<open>q\<close>, \<open>key\<close>,
  \<open>cx\<close>, \<open>num\<close>, \<open>start\<close>; \<open>session.get\<close> raises or returns a response
  with a status code and a body; \<open>response.json()\<close> raises or returns the data, of
  which the code reads the keys \<open>error\<close> (with its optional \<open>message\<close>) and
  \<open>items\<close> (each item with its optional \<open>link\<close>). The provider is a transition
  function on a network state \<open>'w\<close>, so that its answer may depend on the request
  and on everything that happened before.
\<close>

record search_params =
  param_q :: string
  param_key :: string
  param_cx :: string
  param_num :: nat
  param_start :: nat

record search_data =
  data_error :: "string option option"
  data_items :: "string option list option"

record api_response =
  api_status_code :: nat
  api_json :: "exn + search_data"

type_synonym 'w api_get = "'w \<Rightarrow> search_params \<Rightarrow> (exn + api_response) \<times> 'w"

text \<open>\<open>response.raise_for_status()\<close>\<close>

definition raise_for_status :: "nat \<Rightarrow> exn + unit" where
  "raise_for_status code =
     (if 400 \<le> code \<and> code < 500 then Inl (HTTPError ''Client Error'')
      else if 500 \<le> code \<and> code < 600 then Inl (HTTPError ''Server Error'')
      else Inr ())"

text \<open>\<open>[item['link'] for item in data['items']]\<close>\<close>

fun item_links :: "string option list \<Rightarrow> exn + string list" where
  "item_links [] = Inr []"
| "item_links (None # items) = Inl (KeyError ''link'')"
| "item_links (Some link # items) =
     (case item_links items of Inl e \<Rightarrow> Inl e | Inr links \<Rightarrow> Inr (link # links))"

definition data_links :: "search_data \<Rightarrow> exn + string list" where
  "data_links data = (case data_items data of None \<Rightarrow> Inr [] | Some items \<Rightarrow> item_links items)"

text \<open>The slice \<open>xs[:n]\<close>.\<close>

definition py_prefix :: "int \<Rightarrow> 'a list \<Rightarrow> 'a list" where
  "py_prefix n xs = (if 0 \<le> n then take (nat n) xs else take (length xs - nat (- n)) xs)"

text \<open>
  The \<open>try\<close> block of \<open>search_google\<close> up to the rotation: two pages of results.
  Only the first page is checked for an \<open>error\<close> payload.
\<close>

definition search_google_try :: "'w api_get \<Rightarrow> string \<Rightarrow> searcher \<Rightarrow> 'w \<Rightarrow> (exn + string list) \<times> 'w" where
  "search_google_try get query self w =
     (case get_current_key_pair self of
        Inl e \<Rightarrow> (Inl e, w)
      | Inr (api_key, search_engine_id) \<Rightarrow>
          let params = \<lparr> param_q = query, param_key = api_key, param_cx = search_engine_id,
                          param_num = 10, param_start = 1 \<rparr> in
          (case get w params of
             (Inl e, w1) \<Rightarrow> (Inl e, w1)
           | (Inr response, w1) \<Rightarrow>
               (case raise_for_status (api_status_code response) of
                  Inl e \<Rightarrow> (Inl e, w1)
                | Inr _ \<Rightarrow>
                    (case api_json response of
                       Inl e \<Rightarrow> (Inl e, w1)
                     | Inr data \<Rightarrow>
                         (case data_error data of
                            Some error \<Rightarrow>
                              (Inl (ValueError (''Google API error: '' @
                                 (case error of None \<Rightarrow> ''Unknown error'' | Some m \<Rightarrow> m))), w1)
                          | None \<Rightarrow>
                              (case data_links data of
                                 Inl e \<Rightarrow> (Inl e, w1)
                               | Inr urls \<Rightarrow>
                                   (case get w1 (params\<lparr>param_start := 11\<rparr>) of
                                      (Inl e, w2) \<Rightarrow> (Inl e, w2)
                                    | (Inr response2, w2) \<Rightarrow>
                                        (case raise_for_status (api_status_code response2) of
                                           Inl e \<Rightarrow> (Inl e, w2)
                                         | Inr _ \<Rightarrow>
                                             (case api_json response2 of
                                                Inl e \<Rightarrow> (Inl e, w2)
                                              | Inr data2 \<Rightarrow>
                                                  (case data_links data2 of
                                                     Inl e \<Rightarrow> (Inl e, w2)
                                                   | Inr urls2 \<Rightarrow> (Inr (urls @ urls2), w2)))))))))))"

text \<open>
  The handler \<open>except Exception as e\<close> of \<open>search_google\<close>: rotate the key and
  raise \<open>e\<close> again (an exception of the rotation itself replaces it).
\<close>

definition search_google_except :: "exn \<Rightarrow> searcher \<Rightarrow> 'w \<Rightarrow> (exn + string list) \<times> (searcher \<times> 'w)" where
  "search_google_except e self w =
     (case rotate_api_key self of
        Inr self' \<Rightarrow> (Inl e, (self', w))
      | Inl e' \<Rightarrow> (Inl e', (self, w)))"

text \<open>
  One call of the undecorated \<open>search_google\<close>: one attempt. The rotation of the
  success path is inside the \<open>try\<close> block.
\<close>

definition search_google_once :: "config \<Rightarrow> 'w api_get \<Rightarrow> string \<Rightarrow> searcher \<times> 'w \<Rightarrow> (exn + string list) \<times> (searcher \<times> 'w)" where
  "search_google_once cfg get query st =
     (case st of (self, w) \<Rightarrow>
        (case search_google_try get query self w of
           (Inr urls, w') \<Rightarrow>
             (case rotate_api_key self of
                Inr self' \<Rightarrow> (Inr (py_prefix (SCRAPER_RESULTS_PER_CELEBRITY cfg) urls), (self', w'))
              | Inl e \<Rightarrow> search_google_except e self w')
         | (Inl e, w') \<Rightarrow> search_google_except e self w'))"

text \<open>\<open>search_google\<close> as the program calls it: decorated with \<open>@exponential_backoff\<close>.\<close>

definition search_google :: "config \<Rightarrow> 'w api_get \<Rightarrow> string \<Rightarrow> searcher \<times> 'w \<Rightarrow> (exn + string list) \<times> (searcher \<times> 'w)" where
  "search_google cfg get query = exponential_backoff cfg (search_google_once cfg get query)"

text \<open>
  Networks and a searcher for concrete evaluation. The network state counts the
  requests made. \<open>flaky_get\<close> fails to connect on the first request and answers
  every later one with one result; \<open>dead_get\<close> times out on every request;
  \<open>forbidden_get\<close> answers every request with the status 403; \<open>quota_get\<close>
  answers with an \<open>error\<close> payload.
\<close>

definition one_result :: api_response where
  "one_result = \<lparr> api_status_code = 200,
     api_json = Inr \<lparr> data_error = None, data_items = Some [Some ''https://example.org/a''] \<rparr> \<rparr>"

definition flaky_get :: "nat api_get" where
  "flaky_get w params =
     (if w = 0 then (Inl (ConnectionError ''connection reset''), Suc w)
      else (Inr one_result, Suc w))"

definition dead_get :: "nat api_get" where
  "dead_get w params = (Inl (Timeout ''read timed out''), Suc w)"

definition forbidden_get :: "nat api_get" where
  "forbidden_get w params =
     (Inr \<lparr> api_status_code = 403, api_json = Inl (ValueError ''no JSON'') \<rparr>, Suc w)"

definition quota_get :: "nat api_get" where
  "quota_get w params =
     (Inr \<lparr> api_status_code = 200,
            api_json = Inr \<lparr> data_error = Some (Some ''Quota exceeded''), data_items = None \<rparr> \<rparr>,
      Suc w)"

definition three_keys :: searcher where
  "three_keys = \<lparr> api_keys = [''key1'', ''key2'', ''key3''],
                   search_engine_ids = [''cx1'', ''cx2'', ''cx3''],
                   current_key_index = 0 \<rparr>"

section \<open>google_scraper.py: WebScraper\<close>

text \<open>
  The dictionary that a fetch returns. The keys \<open>cleaned_text\<close>,
  \<open>content_length\<close> and \<open>extraction_confidence\<close> are present only after a
  cleaning, the key \<open>error\<close> only in a failure (and its value may be Python's
  \<open>None\<close>): an absent key is the outer \<open>None\<close>.
\<close>

record fetch_result =
  fr_status :: string
  fr_error :: "string option option"
  fr_cleaned_text :: "ustring option"
  fr_content_length :: "int option"
  fr_extraction_confidence :: "real option"
  fr_domain :: string
  fr_processing_time_ms :: int

text \<open>An entry of the list of successes, and an entry of the list of failures.\<close>

record scraped =
  original_url :: string
  cleaned_text :: ustring
  domain :: string
  content_length :: int
  extraction_confidence :: real
  processing_time_ms :: int

record failed_url =
  fu_url :: string
  fu_error :: "string option"
  fu_status :: string

text \<open>
  \<open>domain.replace('www.', '')\<close>, \<open>str.lower\<close> on ASCII letters, and the substring
  test \<open>pat in s\<close>.
\<close>

fun remove_www :: "string \<Rightarrow> string" where
  "remove_www [] = []"
| "remove_www (c # cs) =
     (if take 4 (c # cs) = ''www.'' then remove_www (drop 3 cs) else c # remove_www cs)"

definition lower_char :: "char \<Rightarrow> char" where
  "lower_char c =
     (let n = (of_char c :: nat) in if 65 \<le> n \<and> n \<le> 90 then char_of (n + 32) else c)"

fun contains :: "string \<Rightarrow> string \<Rightarrow> bool" where
  "contains pat [] = (pat = [])"
| "contains pat (c # cs) = (take (length pat) (c # cs) = pat \<or> contains pat cs)"

text \<open>
  \<open>_extract_domain\<close>. \<open>urlparse\<close> is the library function, giving \<open>netloc\<close>
  and \<open>path\<close> or raising.
\<close>

definition extract_domain :: "(string \<Rightarrow> exn + string \<times> string) \<Rightarrow> string \<Rightarrow> string" where
  "extract_domain urlparse url =
     (case urlparse url of
        Inl e \<Rightarrow> []
      | Inr (netloc, path) \<Rightarrow> remove_www (if netloc \<noteq> [] then netloc else path))"

text \<open>
  The environment of a \<open>WebScraper\<close>: \<open>session.get(url, timeout, allow_redirects)\<close>
  as a transition of the network state, the clock reading
  \<open>int((time.time() - start_time) * 1000)\<close> in a network state, and \<open>urlparse\<close>.
\<close>

record page_response =
  page_status_code :: nat
  page_content_type :: "string option"
  page_text :: ustring

record 'w web_env =
  session_get :: "'w \<Rightarrow> string \<Rightarrow> (exn + page_response) \<times> 'w"
  elapsed_ms :: "'w \<Rightarrow> int"
  web_urlparse :: "string \<Rightarrow> exn + string \<times> string"

definition fetch_failure :: "string \<Rightarrow> string option \<Rightarrow> string \<Rightarrow> int \<Rightarrow> fetch_result" where
  "fetch_failure status err dmn ms =
     \<lparr> fr_status = status, fr_error = Some err, fr_cleaned_text = None,
       fr_content_length = None, fr_extraction_confidence = None,
       fr_domain = dmn, fr_processing_time_ms = ms \<rparr>"

definition fetch_cleaned :: "clean_result \<Rightarrow> string \<Rightarrow> int \<Rightarrow> fetch_result" where
  "fetch_cleaned clean_result dmn ms =
     \<lparr> fr_status = cr_status clean_result, fr_error = None,
       fr_cleaned_text = Some (cr_cleaned_text clean_result),
       fr_content_length = Some (cr_content_length clean_result),
       fr_extraction_confidence = Some (cr_extraction_confidence clean_result),
       fr_domain = dmn, fr_processing_time_ms = ms \<rparr>"

text \<open>
  The three handlers of \<open>fetch_and_parse\<close>: \<open>requests.Timeout\<close>,
  \<open>requests.RequestException\<close>, \<open>Exception\<close>.
\<close>

definition fetch_except :: "'w web_env \<Rightarrow> string \<Rightarrow> 'w \<Rightarrow> exn \<Rightarrow> fetch_result" where
  "fetch_except env url w e =
     (if is_Timeout e
      then fetch_failure ''timeout'' (Some ''Request timeout'')
             (extract_domain (web_urlparse env) url) (elapsed_ms env w)
      else if is_RequestException e
      then fetch_failure ''failed'' (Some (str_exn e))
             (extract_domain (web_urlparse env) url) (elapsed_ms env w)
      else fetch_failure ''failed'' (Some (str_exn e))
             (extract_domain (web_urlparse env) url) (elapsed_ms env w))"

text \<open>The undecorated \<open>fetch_and_parse\<close>: it catches every exception of its body.\<close>

definition fetch_and_parse_once :: "config \<Rightarrow> 'soup html_lib \<Rightarrow> 'w web_env \<Rightarrow> string \<Rightarrow> 'w \<Rightarrow> (exn + fetch_result) \<times> 'w" where
  "fetch_and_parse_once cfg lib env url w =
     (case session_get env w url of
        (Inl e, w1) \<Rightarrow> (Inr (fetch_except env url w1 e), w1)
      | (Inr response, w1) \<Rightarrow>
          (case raise_for_status (page_status_code response) of
             Inl e \<Rightarrow> (Inr (fetch_except env url w1 e), w1)
           | Inr _ \<Rightarrow>
               let content_type = map lower_char
                     (case page_content_type response of None \<Rightarrow> [] | Some t \<Rightarrow> t) in
               if \<not> contains ''text'' content_type \<and> \<not> contains ''html'' content_type
               then (Inr (fetch_failure ''failed''
                            (Some (''Invalid content type: '' @ content_type))
                            (extract_domain (web_urlparse env) url) (elapsed_ms env w1)), w1)
               else
                 (case clean_text cfg lib (page_text response) of
                    Inl e \<Rightarrow> (Inr (fetch_except env url w1 e), w1)
                  | Inr clean_result \<Rightarrow>
                      (Inr (fetch_cleaned clean_result
                              (extract_domain (web_urlparse env) url) (elapsed_ms env w1)), w1))))"

text \<open>\<open>fetch_and_parse\<close> as the program calls it, decorated with \<open>@exponential_backoff\<close>.\<close>

definition fetch_and_parse :: "config \<Rightarrow> 'soup html_lib \<Rightarrow> 'w web_env \<Rightarrow> string \<Rightarrow> 'w \<Rightarrow> (exn + fetch_result) \<times> 'w" where
  "fetch_and_parse cfg lib env url = exponential_backoff cfg (fetch_and_parse_once cfg lib env url)"

text \<open>
  The two branches of the loop body of \<open>scrape_urls\<close> and
  \<open>scrape_urls_async\<close>: \<open>result.get(key, default)\<close> reads an optional key.
\<close>

definition is_ok :: "fetch_result \<Rightarrow> bool" where
  "is_ok result \<longleftrightarrow> fr_status result = ''success'' \<or> fr_status result = ''partial''"

definition to_scraped :: "config \<Rightarrow> string \<Rightarrow> fetch_result \<Rightarrow> scraped" where
  "to_scraped cfg url result =
     \<lparr> original_url = url,
       cleaned_text = (case fr_cleaned_text result of None \<Rightarrow> [] | Some t \<Rightarrow> t),
       domain = fr_domain result,
       content_length = (case fr_content_length result of None \<Rightarrow> 0 | Some n \<Rightarrow> n),
       extraction_confidence =
         (case fr_extraction_confidence result of
            None \<Rightarrow> DEFAULT_CONFIDENCE_SCORE cfg | Some c \<Rightarrow> c),
       processing_time_ms = fr_processing_time_ms result \<rparr>"

definition to_failed :: "string \<Rightarrow> fetch_result \<Rightarrow> failed_url" where
  "to_failed url result =
     \<lparr> fu_url = url,
       fu_error = (case fr_error result of None \<Rightarrow> Some ''Unknown error'' | Some err \<Rightarrow> err),
       fu_status = fr_status result \<rparr>"

text \<open>
  \<open>WebScraper.scrape_urls\<close>: the loop over the URLs, in order. An exception of
  \<open>fetch_and_parse\<close> would leave the loop and the function. The lists are built in
  the order of the loop; the sleep before each fetch is not observed.
\<close>

fun scrape_urls :: "config \<Rightarrow> 'soup html_lib \<Rightarrow> 'w web_env \<Rightarrow> string list \<Rightarrow> 'w \<Rightarrow> (exn + scraped list \<times> failed_url list) \<times> 'w" where
  "scrape_urls cfg lib env [] w = (Inr ([], []), w)"
| "scrape_urls cfg lib env (url # urls) w =
     (case fetch_and_parse cfg lib env url w of
        (Inl e, w1) \<Rightarrow> (Inl e, w1)
      | (Inr result, w1) \<Rightarrow>
          (case scrape_urls cfg lib env urls w1 of
             (Inl e, w2) \<Rightarrow> (Inl e, w2)
           | (Inr (results, failed_urls), w2) \<Rightarrow>
               if is_ok result
               then (Inr (to_scraped cfg url result # results, failed_urls), w2)
               else (Inr (results, to_failed url result # failed_urls), w2)))"

section \<open>crawl4ai_scraper.py: Crawl4AIScraper\<close>

text \<open>
  The crawler is a library. \<open>arun i url attempt\<close> is the outcome of
  \<open>await crawler.arun(url=url, ...)\<close> in the task of the \<open>i\<close>-th URL at its
  \<open>attempt\<close>-th attempt: it raises, or returns \<open>None\<close> or a result with
  \<open>success\<close>, \<open>error_message\<close> and \<open>markdown\<close>. The tasks of
  \<open>asyncio.gather\<close> run interleaved; whatever the interleaving, each attempt of
  each task has one outcome, so a function of the task and the attempt covers every
  schedule. \<open>crawl_elapsed_ms\<close> is the clock reading of that attempt. The
  construction of the crawler objects in \<open>_init_crawler\<close> is taken to succeed.
\<close>

record crawl_result =
  crawl_success :: bool
  crawl_error_message :: "string option"
  crawl_markdown :: "ustring option"

record crawl_env =
  arun :: "nat \<Rightarrow> string \<Rightarrow> int \<Rightarrow> exn + crawl_result option"
  crawl_elapsed_ms :: "nat \<Rightarrow> int \<Rightarrow> int"
  crawl_urlparse :: "string \<Rightarrow> exn + string \<times> string"

text \<open>
  \<open>_fetch_single_url\<close>, with its recursion on \<open>attempt\<close>. Every exception is
  caught: \<open>asyncio.TimeoutError\<close> retries or gives the status \<open>timeout\<close>, any
  other \<open>Exception\<close> gives the status \<open>failed\<close>.
\<close>

function fetch_single_url :: "config \<Rightarrow> 'soup html_lib \<Rightarrow> crawl_env \<Rightarrow> nat \<Rightarrow> string \<Rightarrow> int \<Rightarrow> fetch_result" where
  "fetch_single_url cfg lib env i url attempt =
     (let processing_time = crawl_elapsed_ms env i attempt;
          dmn = extract_domain (crawl_urlparse env) url in
      case arun env i url attempt of
        Inl e \<Rightarrow>
          if e = AsyncTimeoutError
          then (if attempt < SCRAPER_MAX_RETRIES cfg
                then fetch_single_url cfg lib env i url (attempt + 1)
                else fetch_failure ''timeout'' (Some ''Request timeout'') dmn processing_time)
          else fetch_failure ''failed'' (Some (str_exn e)) dmn processing_time
      | Inr None \<Rightarrow> fetch_failure ''failed'' (Some ''Unknown error'') dmn processing_time
      | Inr (Some result) \<Rightarrow>
          if \<not> crawl_success result
          then (if attempt < SCRAPER_MAX_RETRIES cfg
                   \<and> crawl_error_message result \<noteq> None \<and> crawl_error_message result \<noteq> Some []
                then fetch_single_url cfg lib env i url (attempt + 1)
                else fetch_failure ''failed'' (crawl_error_message result) dmn processing_time)
          else
            let markdown_content =
                  (case crawl_markdown result of None \<Rightarrow> [] | Some t \<Rightarrow> t) in
            if markdown_content = []
            then fetch_failure ''failed'' (Some ''No content extracted'') dmn processing_time
            else
              (case clean_text cfg lib markdown_content of
                 Inl e \<Rightarrow> fetch_failure ''failed'' (Some (str_exn e)) dmn processing_time
               | Inr clean_result \<Rightarrow> fetch_cleaned clean_result dmn processing_time))"
  by pat_completeness auto
termination
  by (relation "measure (\<lambda>(cfg, lib, env, i, url, attempt). nat (SCRAPER_MAX_RETRIES cfg - attempt))")
     auto

declare fetch_single_url.simps [simp del]

text \<open>
  The loop \<open>for url, result in zip(urls, results)\<close> of \<open>scrape_urls_async\<close>.
\<close>

fun separate :: "config \<Rightarrow> (string \<times> fetch_result) list \<Rightarrow> scraped list \<times> failed_url list" where
  "separate cfg [] = ([], [])"
| "separate cfg ((url, result) # rest) =
     (case separate cfg rest of
        (successful_results, failed_urls) \<Rightarrow>
          if is_ok result
          then (to_scraped cfg url result # successful_results, failed_urls)
          else (successful_results, to_failed url result # failed_urls))"

text \<open>
  \<open>scrape_urls_async\<close>: one task per URL, started with \<open>attempt = 1\<close>;
  \<open>asyncio.gather\<close> returns the results in the order of the URLs.
\<close>

definition scrape_urls_async :: "config \<Rightarrow> 'soup html_lib \<Rightarrow> crawl_env \<Rightarrow> string list \<Rightarrow> scraped list \<times> failed_url list" where
  "scrape_urls_async cfg lib env urls =
     (if urls = [] then ([], [])
      else
        let results = map (\<lambda>(i, url). fetch_single_url cfg lib env i url 1)
                          (zip [0 ..< length urls] urls)
        in separate cfg (zip urls results))"

text \<open>
  An environment for concrete evaluation: the page \<open>a\<close> is the example document
  served as HTML, the page \<open>b\<close> is not found, every other request times out; the
  crawler delivers the example document for \<open>a\<close> and times out on everything else.
\<close>

definition example_urlparse :: "string \<Rightarrow> exn + string \<times> string" where
  "example_urlparse url = Inr (''www.example.org'', url)"

definition example_web :: "nat web_env" where
  "example_web =
     \<lparr> session_get = (\<lambda>w url.
         if url = ''a''
         then (Inr \<lparr> page_status_code = 200, page_content_type = Some ''text/html'',
                      page_text = example_html \<rparr>, Suc w)
         else if url = ''b''
         then (Inr \<lparr> page_status_code = 404, page_content_type = Some ''text/html'',
                      page_text = [] \<rparr>, Suc w)
         else (Inl (Timeout ''read timed out''), Suc w)),
       elapsed_ms = (\<lambda>w. 5),
       web_urlparse = example_urlparse \<rparr>"

definition example_crawler :: crawl_env where
  "example_crawler =
     \<lparr> arun = (\<lambda>i url attempt.
         if url = ''a''
         then Inr (Some \<lparr> crawl_success = True, crawl_error_message = None,
                           crawl_markdown = Some example_html \<rparr>)
         else Inl AsyncTimeoutError),
       crawl_elapsed_ms = (\<lambda>i attempt. 5),
       crawl_urlparse = example_urlparse \<rparr>"

section \<open>database_handler.py: batch_insert_mentions\<close>

text \<open>
  A mention dictionary as \<open>scrape_celebrity_worker\<close> builds it: the fields of a
  scraped page, the celebrity and the optional key \<open>time_stamp\<close>.
\<close>

record mention = scraped +
  celebrity_id :: int
  time_stamp :: "string option"

text \<open>
  The MySQL connection is a library object; its operations are parameters, acting on
  a connection state \<open>'c\<close>: \<open>connection.cursor()\<close>, \<open>cursor.execute\<close> of the
  \<open>INSERT\<close> statement with the values of one mention, \<open>connection.commit()\<close>
  and \<open>connection.rollback()\<close>. The first three may raise.
\<close>

record 'c db_driver =
  open_cursor :: "'c \<Rightarrow> exn + unit"
  execute_insert :: "'c \<Rightarrow> mention \<Rightarrow> (exn + unit) \<times> 'c"
  commit :: "'c \<Rightarrow> (exn + unit) \<times> 'c"
  rollback :: "'c \<Rightarrow> 'c"

text \<open>
  The loop over the mentions with its inner handler \<open>except MySQLError\<close>, which
  counts the mention as skipped whether the message holds \<open>Duplicate entry\<close> or
  not. Any other exception leaves the loop (first component). \<open>now\<close> is
  \<open>datetime.now().isoformat()\<close>, the default of \<open>time_stamp\<close>.
\<close>

fun insert_loop :: "'c db_driver \<Rightarrow> string \<Rightarrow> mention list \<Rightarrow> 'c \<Rightarrow> int \<Rightarrow> int \<Rightarrow> exn option \<times> 'c \<times> int \<times> int" where
  "insert_loop db now [] conn inserted skipped = (None, conn, inserted, skipped)"
| "insert_loop db now (mention # mentions) conn inserted skipped =
     (let values = mention\<lparr>time_stamp :=
                     Some (case time_stamp mention of None \<Rightarrow> now | Some t \<Rightarrow> t)\<rparr> in
      case execute_insert db conn values of
        (Inr _, conn') \<Rightarrow> insert_loop db now mentions conn' (inserted + 1) skipped
      | (Inl e, conn') \<Rightarrow>
          if is_MySQLError e
          then (if contains ''Duplicate entry'' (str_exn e)
                then insert_loop db now mentions conn' inserted (skipped + 1)
                else insert_loop db now mentions conn' inserted (skipped + 1))
          else (Some e, conn', inserted, skipped))"

text \<open>
  \<open>batch_insert_mentions\<close>. The outer handler \<open>except Exception\<close> rolls back
  and the function still returns the counts. When \<open>connection.cursor()\<close> itself
  raises, \<open>cursor\<close> is unbound in the \<open>finally\<close> block and the
  \<open>UnboundLocalError\<close> leaves the function.
\<close>

definition batch_insert_mentions :: "'c db_driver \<Rightarrow> string \<Rightarrow> 'c \<Rightarrow> mention list \<Rightarrow> (exn + int \<times> int) \<times> 'c" where
  "batch_insert_mentions db now connection mentions =
     (case open_cursor db connection of
        Inl e \<Rightarrow> (Inl (OtherException ''UnboundLocalError''), rollback db connection)
      | Inr _ \<Rightarrow>
          (case insert_loop db now mentions connection 0 0 of
             (Some e, conn, inserted, skipped) \<Rightarrow> (Inr (inserted, skipped), rollback db conn)
           | (None, conn, inserted, skipped) \<Rightarrow>
               (case commit db conn of
                  (Inl e, conn') \<Rightarrow> (Inr (inserted, skipped), rollback db conn')
                | (Inr _, conn') \<Rightarrow> (Inr (inserted, skipped), conn'))))"

text \<open>
  Modelled from the spec: the table \<open>celebrity_mentions\<close> and its unique key are
  declared outside the source files. The spec gives the uniqueness key
  \<open>(entityId, originalUrl)\<close> and says that a second attempt to store the same pair
  is rejected as a duplicate. A connection holds the committed rows of the table and
  the rows inserted by the open transaction; an insert whose key is already among
  either raises the duplicate-key error of MySQL and stores nothing, any other insert
  adds the row to the transaction; commit moves the rows of the transaction into the
  table, rollback drops them.
\<close>

record mysql_conn =
  table_rows :: "mention list"
  txn_rows :: "mention list"

text \<open>
  Modelled from the spec: the uniqueness key \<open>(entityId, originalUrl)\<close> of a
  stored mention.
\<close>

definition mention_key :: "mention \<Rightarrow> int \<times> string" where
  "mention_key m = (celebrity_id m, original_url m)"

text \<open>
  Modelled from the spec: the store with the unique key, as the operations of a
  connection. Opening a cursor and committing succeed on it.
\<close>

definition mysql :: "mysql_conn db_driver" where
  "mysql =
     \<lparr> open_cursor = (\<lambda>c. Inr ()),
       execute_insert = (\<lambda>c row.
         if mention_key row \<in> set (map mention_key (table_rows c @ txn_rows c))
         then (Inl (MySQLError ''1062 (23000): Duplicate entry for key celebrity_mentions''), c)
         else (Inr (), c\<lparr>txn_rows := txn_rows c @ [row]\<rparr>)),
       commit = (\<lambda>c. (Inr (), \<lparr> table_rows = table_rows c @ txn_rows c, txn_rows = [] \<rparr>)),
       rollback = (\<lambda>c. c\<lparr>txn_rows := []\<rparr>) \<rparr>"

text \<open>A mention and an empty store for concrete evaluation.\<close>

definition example_mention :: mention where
  "example_mention =
     \<lparr> original_url = ''https://example.org/a'', cleaned_text = example_text,
       domain = ''example.org'', content_length = 5, extraction_confidence = 0.95,
       processing_time_ms = 5, celebrity_id = 1, time_stamp = None \<rparr>"

definition empty_store :: mysql_conn where
  "empty_store = \<lparr> table_rows = [], txn_rows = [] \<rparr>"

section \<open>Partition completeness\<close>

lemma concat_batches_from:
  "0 < b \<Longrightarrow> concat (batches_from xs b i) = drop i xs"
proof (induction xs b i rule: batches_from.induct)
  case (1 xs b i)
  show ?case
  proof (cases "i < length xs")
    case True
    have split: "drop (i + b) xs = drop b (drop i xs)"
      by (simp add: add.commute)
    have "concat (batches_from xs b i) = take b (drop i xs) @ drop (i + b) xs"
      using True 1 by (simp add: batches_from.simps [of xs b i])
    then show ?thesis
      by (simp only: split append_take_drop_id)
  next
    case False
    then show ?thesis by (simp add: batches_from.simps [of xs b i])
  qed
qed

lemma length_batches_from:
  "0 < b \<Longrightarrow> length (batches_from xs b i) = (length xs - i + b - 1) div b"
proof (induction xs b i rule: batches_from.induct)
  case (1 xs b i)
  show ?case
  proof (cases "i < length xs")
    case True
    define d where "d = length xs - i - 1"
    have d: "length xs - i = Suc d"
      using True by (simp add: d_def)
    have rest: "length xs - (i + b) = Suc d - b"
      using d by simp
    have unfold: "length (batches_from xs b i) = Suc (length (batches_from xs b (i + b)))"
      using True 1(2) by (simp add: batches_from.simps [of xs b i])
    have ih: "length (batches_from xs b (i + b)) = (Suc d - b + b - 1) div b"
      using 1(1) True 1(2) rest by simp
    have "(Suc d - b + b - 1) div b = d div b"
    proof (cases "b \<le> Suc d")
      case True
      then show ?thesis by simp
    next
      case False
      then show ?thesis using 1(2) by simp
    qed
    moreover have "(Suc d + b - 1) div b = Suc (d div b)"
      using 1(2) by simp
    ultimately show ?thesis using unfold ih d by simp
  next
    case False
    then show ?thesis using 1(2) by (simp add: batches_from.simps [of xs b i])
  qed
qed

lemma batches_from_sizes:
  "0 < b \<Longrightarrow> ys \<in> set (batches_from xs b i) \<Longrightarrow> ys \<noteq> [] \<and> length ys \<le> b"
proof (induction xs b i rule: batches_from.induct)
  case (1 xs b i)
  show ?case
  proof (cases "i < length xs")
    case True
    then have "ys = take b (drop i xs) \<or> ys \<in> set (batches_from xs b (i + b))"
      using 1(2,3) by (simp add: batches_from.simps [of xs b i])
    then show ?thesis using 1 True by auto
  next
    case False
    then show ?thesis using 1(3) by (simp add: batches_from.simps [of xs b i])
  qed
qed

lemma ceiling_nat_div:
  fixes m b :: nat
  assumes "0 < b"
  shows "\<lceil>real m / real b\<rceil> = int ((m + b - 1) div b)"
proof -
  define q where "q = (m + b - 1) div b"
  have lo: "q * b \<le> m + b - 1"
    unfolding q_def by simp
  have hi: "m + b - 1 < q * b + b"
    unfolding q_def using assms
    by (metis div_mult_mod_eq mod_less_divisor nat_add_left_cancel_less)
  have m_le: "m \<le> q * b" using hi assms by linarith
  have m_gt: "q * b < m + b" using lo assms by linarith
  have br: "0 < real b" using assms by simp
  have "real m \<le> real q * real b"
    using m_le by (metis of_nat_le_iff of_nat_mult)
  then have up: "real m / real b \<le> real q"
    using br by (simp add: pos_divide_le_eq)
  have "real q * real b < real m + real b"
    using m_gt by (metis of_nat_less_iff of_nat_mult of_nat_add)
  then have "(real q - 1) * real b < real m"
    by (simp add: algebra_simps)
  then have low: "real q - 1 < real m / real b"
    using br by (simp add: pos_less_divide_eq)
  have "\<lceil>real m / real b\<rceil> = int q"
    by (rule ceiling_unique) (use up low in simp_all)
  then show ?thesis by (simp add: q_def)
qed

text \<open>
  C8. For a roster of size \<open>M\<close> and a positive batch size \<open>B\<close>,
  \<open>split_into_batches\<close> returns \<open>ceil(M / B)\<close> batches whose concatenation is the
  roster, in order: no entity is omitted or duplicated. Every batch is non-empty and
  holds at most \<open>B\<close> entities.
\<close>

theorem split_into_batches_partition:
  assumes "0 < B"
  shows "\<exists>bs. split_into_batches roster B = Inr bs
           \<and> int (length bs) = \<lceil>real (length roster) / real_of_int B\<rceil>
           \<and> concat bs = roster
           \<and> (\<forall>b \<in> set bs. b \<noteq> [] \<and> int (length b) \<le> B)"
proof -
  let ?b = "nat B"
  have b: "0 < ?b" "int ?b = B" "real_of_int B = real ?b" using assms by simp_all
  let ?bs = "batches_from roster ?b 0"
  have "split_into_batches roster B = Inr ?bs"
    using assms by (simp add: split_into_batches_def)
  moreover have "int (length ?bs) = \<lceil>real (length roster) / real_of_int B\<rceil>"
    using length_batches_from [OF b(1), of roster 0] ceiling_nat_div [OF b(1), of "length roster"]
    by (simp add: b(3))
  moreover have "concat ?bs = roster"
    using concat_batches_from [OF b(1), of roster 0] by simp
  moreover have "\<forall>x \<in> set ?bs. x \<noteq> [] \<and> int (length x) \<le> B"
    using batches_from_sizes [OF b(1)] b(2) by (metis of_nat_le_iff)
  ultimately show ?thesis by blast
qed

theorem split_into_batches_partition_witness:
  "(0::int) < 2 \<and> split_into_batches [1, 2, 3, 4, 5 :: nat] 2 = Inr [[1, 2], [3, 4], [5]]
     \<and> \<lceil>real (length [1, 2, 3, 4, 5 :: nat]) / real_of_int 2\<rceil> = 3"
proof -
  have h: "(0::int) < 2" by simp
  have e: "split_into_batches [1, 2, 3, 4, 5 :: nat] 2 = Inr [[1, 2], [3, 4], [5]]"
    by (simp add: split_into_batches_def batches_from.simps)
  have c: "\<lceil>real (length [1, 2, 3, 4, 5 :: nat]) / real_of_int 2\<rceil> = 3"
    using split_into_batches_partition [OF h, of "[1, 2, 3, 4, 5 :: nat]"] e by auto
  show ?thesis using h e c by blast
qed

section \<open>Properties of the text processor\<close>








lemma decompose_each_filter:
  "decompose_each (\<lambda>name soup. Inr (filter (\<lambda>el. fst el \<noteq> name) soup)) names soup
     = Inr (filter (\<lambda>el. fst el \<notin> set names) soup)"
  by (induction names arbitrary: soup) (auto intro: filter_cong)

lemma example_is_cjk: "filter is_cjk example_text = example_text"
  by (simp add: example_text_def is_cjk_def)

lemma example_parse_html: "example_parse example_html
   = Inr [(''script'', [97, 108, 101, 114, 116, 40, 49, 41]), (''p'', example_text)]"
  by (simp add: example_parse_def)

lemma example_parse_empty: "example_parse [] = Inr []"
  by (simp add: example_parse_def example_html_def)

lemma example_strip: "strip example_text = example_text"
  by (simp add: strip_def example_text_def py_isspace_def)

lemma example_extract_text:
  "extract_text example_lib soup =
     Inr (strip (concat (map snd (filter (\<lambda>el. fst el \<notin> set REMOVE_SELECTORS)
       (filter (\<lambda>el. fst el \<notin> set REMOVE_TAGS) soup)))))"
  by (simp add: extract_text_def example_lib_def decompose_each_filter)

lemma example_removed: "''script'' \<in> set REMOVE_TAGS" "''p'' \<notin> set REMOVE_TAGS"
  "''p'' \<notin> set REMOVE_SELECTORS"
  by (simp_all add: REMOVE_TAGS_def REMOVE_SELECTORS_def)

lemma example_clean_html: "clean_html example_lib example_html = Inr example_text"
proof -
  have "clean_html example_lib example_html =
          extract_text example_lib [(''script'', [97, 108, 101, 114, 116, 40, 49, 41]), (''p'', example_text)]"
    by (simp add: clean_html_def example_lib_def example_parse_html)
  also have "\<dots> = Inr (strip example_text)"
    unfolding example_extract_text by (simp add: example_removed)
  finally show ?thesis by (simp only: example_strip)
qed

lemma example_clean_html_empty: "clean_html example_lib [] = Inr []"
proof -
  have "clean_html example_lib [] = extract_text example_lib []"
    by (simp add: clean_html_def example_lib_def example_parse_empty)
  then show ?thesis
    unfolding example_extract_text by (simp add: strip_def)
qed

lemma example_normalize: "normalize_whitespace example_text = example_text"
  by (simp add: normalize_whitespace_def example_text_def strip_def py_isspace_def)

lemma example_remove_special:
  "remove_special_characters example_lib example_text True = example_text"
  by (simp add: remove_special_characters_def example_text_def is_cjk_def)

lemma example_clean_text:
  "clean_text default_config example_lib example_html
     = Inr \<lparr> cr_cleaned_text = example_text, cr_content_length = 5,
             cr_extraction_confidence = 0.95, cr_raw_text_length = 5,
             cr_status = ''partial'', cr_error = None \<rparr>"
proof -
  have len: "length example_text = 5" by (simp add: example_text_def)
  have conf: "calculate_confidence_score default_config 5 5 None = 0.95"
    by (simp add: calculate_confidence_score_def)
  show ?thesis
    by (simp add: clean_text_def clean_text_body_def example_clean_html Let_def
        example_normalize example_remove_special len conf)
       (simp add: default_config_def)
qed



text \<open>
  C10. \<open>clean_text\<close> is total: whatever the libraries return or raise, it returns
  a result, whose status is one of \<open>success\<close>, \<open>partial\<close>, \<open>failed\<close>,
  \<open>error\<close> and whose \<open>content_length\<close> is the length of its
  \<open>cleaned_text\<close>.
\<close>

theorem clean_text_never_raises:
  "\<exists>r. clean_text cfg lib html = Inr r
       \<and> cr_status r \<in> {''success'', ''partial'', ''failed'', ''error''}
       \<and> cr_content_length r = int (length (cr_cleaned_text r))"
  by (simp add: clean_text_def clean_text_body_def Let_def split: sum.splits)

text \<open>
  C2. For a positive original length, \<open>calculate_confidence_score\<close> is the step
  function of the ratio \<open>cleaned_length / original_length\<close>: 0.95 from 0.70 on,
  0.85 from 0.50 on, 0.70 from 0.30 on, 0.50 from 0.10 on, and the configured floor
  below; for the original length 0 it is the floor, and \<open>clean_text\<close> then
  reports the status \<open>failed\<close> with the floor as confidence. The floor is a
  confidence score, at most 1; the final \<open>min(confidence, 1.0)\<close> of the code
  would cut a larger one.
\<close>

theorem calculate_confidence_score_step:
  assumes "MIN_CONFIDENCE_SCORE cfg \<le> 1"
  shows "(0 < original_length \<longrightarrow>
            calculate_confidence_score cfg original_length cleaned_length None =
              (let r = real_of_int cleaned_length / real_of_int original_length
               in if r \<ge> 0.70 then 0.95
                  else if r \<ge> 0.50 then 0.85
                  else if r \<ge> 0.30 then 0.70
                  else if r \<ge> 0.10 then 0.50
                  else MIN_CONFIDENCE_SCORE cfg))
       \<and> calculate_confidence_score cfg 0 cleaned_length None = MIN_CONFIDENCE_SCORE cfg
       \<and> (clean_html lib html = Inr [] \<longrightarrow>
            (\<exists>r. clean_text cfg lib html = Inr r \<and> cr_status r = ''failed''
                 \<and> cr_raw_text_length r = 0
                 \<and> cr_extraction_confidence r = MIN_CONFIDENCE_SCORE cfg))"
  using assms
  by (simp add: calculate_confidence_score_def Let_def clean_text_def clean_text_body_def)

theorem calculate_confidence_score_step_witness:
  "MIN_CONFIDENCE_SCORE default_config \<le> 1 \<and> (0::int) < 100
   \<and> calculate_confidence_score default_config 100 60 None = 0.85
   \<and> calculate_confidence_score default_config 0 60 None = 0.5
   \<and> clean_html example_lib [] = Inr []
   \<and> (\<exists>r. clean_text default_config example_lib [] = Inr r \<and> cr_status r = ''failed'')"
proof -
  have h: "MIN_CONFIDENCE_SCORE default_config \<le> 1" by (simp add: default_config_def)
  have e: "clean_html example_lib [] = Inr []" by (rule example_clean_html_empty)
  note t = calculate_confidence_score_step [OF h, where original_length = 100
      and cleaned_length = 60 and lib = example_lib and html = "[]"]
  have a: "calculate_confidence_score default_config 100 60 None = 0.85"
    using t by simp
  have b: "calculate_confidence_score default_config 0 60 None = 0.5"
    using t by (simp add: default_config_def)
  have c: "\<exists>r. clean_text default_config example_lib [] = Inr r \<and> cr_status r = ''failed''"
    using t e by blast
  show ?thesis using h e a b c by simp
qed

text \<open>
  C9. Monotonicity of the confidence in the ratio fails for a configured floor above
  0.50: with the floor 0.6 the ratio 0.05 scores 0.6 and the larger ratio 0.20 scores
  0.5.
\<close>

theorem confidence_monotone_counterexample:
  "real_of_int 5 / real_of_int 100 < real_of_int 20 / real_of_int 100
   \<and> \<not> calculate_confidence_score (default_config\<lparr>MIN_CONFIDENCE_SCORE := 0.6\<rparr>) 100 5 None
        \<le> calculate_confidence_score (default_config\<lparr>MIN_CONFIDENCE_SCORE := 0.6\<rparr>) 100 20 None"
  by (simp add: calculate_confidence_score_def default_config_def)

lemma confidence_rate_given:
  "0 < original_length \<Longrightarrow>
     calculate_confidence_score cfg original_length cleaned_length None =
     calculate_confidence_score cfg original_length cleaned_length
       (Some (real_of_int cleaned_length / real_of_int original_length))"
  by (simp add: calculate_confidence_score_def)

lemma confidence_monotone_in_rate:
  assumes "MIN_CONFIDENCE_SCORE cfg \<le> 0.5" and "original_length \<noteq> 0" and "r1 \<le> r2"
  shows "calculate_confidence_score cfg original_length c1 (Some r1)
           \<le> calculate_confidence_score cfg original_length c2 (Some r2)"
  using assms by (auto simp: calculate_confidence_score_def Let_def min_def)

text \<open>
  C9, amended. For every configured floor value of at most 0.50 and all ratios
  \<open>r1 < r2\<close> over the same positive original length, the confidence of
  \<open>r1\<close> is at most the confidence of \<open>r2\<close>.
\<close>

theorem confidence_monotone:
  assumes "MIN_CONFIDENCE_SCORE cfg \<le> 0.5"
    and "0 < original_length"
    and "real_of_int c1 / real_of_int original_length < real_of_int c2 / real_of_int original_length"
  shows "calculate_confidence_score cfg original_length c1 None
           \<le> calculate_confidence_score cfg original_length c2 None"
proof -
  have ne: "original_length \<noteq> 0" using assms(2) by simp
  have le: "real_of_int c1 / real_of_int original_length
              \<le> real_of_int c2 / real_of_int original_length"
    using assms(3) by simp
  have "calculate_confidence_score cfg original_length c1
          (Some (real_of_int c1 / real_of_int original_length))
        \<le> calculate_confidence_score cfg original_length c2
          (Some (real_of_int c2 / real_of_int original_length))"
    by (rule confidence_monotone_in_rate [OF assms(1) ne le])
  then show ?thesis
    by (simp only: confidence_rate_given [OF assms(2)])
qed

theorem confidence_monotone_witness:
  "MIN_CONFIDENCE_SCORE default_config \<le> 0.5 \<and> (0::int) < 100
   \<and> real_of_int 20 / real_of_int 100 < real_of_int 60 / real_of_int 100
   \<and> calculate_confidence_score default_config 100 20 None
        \<le> calculate_confidence_score default_config 100 60 None"
proof -
  have h: "MIN_CONFIDENCE_SCORE default_config \<le> 0.5" by (simp add: default_config_def)
  have p: "(0::int) < 100" by simp
  have r: "real_of_int 20 / real_of_int 100 < real_of_int 60 / real_of_int 100" by simp
  show ?thesis using confidence_monotone [OF h p r] h p r by blast
qed

section \<open>Properties of the retry decorator and of the key rotation\<close>

lemma rotate_api_key_rotated:
  "api_keys self \<noteq> [] \<Longrightarrow> rotate_api_key self = Inr (rotated self)"
  by (simp add: rotate_api_key_def rotated_def rotate_api_key_index_def)

lemma api_keys_rotated [simp]: "api_keys (rotated self) = api_keys self"
  by (simp add: rotated_def)

lemma search_google_once_state:
  assumes "api_keys self \<noteq> []"
  shows "fst (snd (search_google_once cfg get query (self, w))) = rotated self"
  using assms
  by (simp add: search_google_once_def search_google_except_def rotate_api_key_rotated
      split: prod.splits sum.splits)

lemma funpow_rotated:
  "(rotated ^^ n) self = self\<lparr>current_key_index :=
     (rotate_api_key_index (length (api_keys self)) ^^ n) (current_key_index self)\<rparr>"
proof (induction n)
  case 0
  show ?case by simp
next
  case (Suc n)
  have "(rotated ^^ Suc n) self = rotated ((rotated ^^ n) self)" by simp
  also have "\<dots> = rotated (self\<lparr>current_key_index :=
     (rotate_api_key_index (length (api_keys self)) ^^ n) (current_key_index self)\<rparr>)"
    by (simp only: Suc)
  also have "\<dots> = self\<lparr>current_key_index :=
     (rotate_api_key_index (length (api_keys self)) ^^ Suc n) (current_key_index self)\<rparr>"
    by (simp add: rotated_def)
  finally show ?case .
qed

lemma backoff_loop_search_state:
  "api_keys self \<noteq> [] \<Longrightarrow>
     fst (snd (backoff_loop (search_google_once cfg get query) n last_exception (self, w)))
       = (rotated ^^ backoff_attempts (search_google_once cfg get query) n (self, w)) self"
proof (induction n arbitrary: last_exception self w)
  case 0
  show ?case by (simp split: option.splits)
next
  case (Suc n)
  obtain r self1 w1 where once: "search_google_once cfg get query (self, w) = (r, (self1, w1))"
    by (metis prod.exhaust)
  have self1: "self1 = rotated self"
    using search_google_once_state [OF Suc.prems, of cfg get query w] once by simp
  then have keys1: "api_keys self1 \<noteq> []" using Suc.prems by simp
  show ?case
  proof (cases r)
    case (Inr v)
    then show ?thesis using once self1 by simp
  next
    case (Inl e)
    show ?thesis
    proof (cases "is_RequestException e")
      case True
      have "fst (snd (backoff_loop (search_google_once cfg get query) n (Some e) (self1, w1)))
              = (rotated ^^ backoff_attempts (search_google_once cfg get query) n (self1, w1)) self1"
        by (rule Suc.IH [OF keys1])
      then show ?thesis using once Inl True self1 by (simp add: funpow_swap1)
    next
      case False
      then show ?thesis using once Inl self1 by simp
    qed
  qed
qed

lemma backoff_attempts_le: "backoff_attempts func n s \<le> n"
  by (induction n arbitrary: s) (auto split: prod.splits sum.splits)

lemma backoff_attempts_pos: "0 < n \<Longrightarrow> 1 \<le> backoff_attempts func n s"
  by (cases n) (auto split: prod.splits sum.splits)

lemma backoff_loop_all_fail:
  assumes "\<forall>k < Suc n. \<exists>e s'. func (((\<lambda>s. snd (func s)) ^^ k) s) = (Inl e, s')
             \<and> is_RequestException e"
  shows "backoff_loop func (Suc n) last_exception s = func (((\<lambda>s. snd (func s)) ^^ n) s)
         \<and> backoff_attempts func (Suc n) s = Suc n"
  using assms
proof (induction n arbitrary: last_exception s)
  case 0
  have "\<exists>e s'. func (((\<lambda>s. snd (func s)) ^^ 0) s) = (Inl e, s') \<and> is_RequestException e"
    using "0.prems" by blast
  then obtain e s' where "func s = (Inl e, s')" "is_RequestException e" by auto
  then show ?case by simp
next
  case (Suc n)
  have "\<exists>e s'. func (((\<lambda>s. snd (func s)) ^^ 0) s) = (Inl e, s') \<and> is_RequestException e"
    using Suc.prems by blast
  then obtain e s' where f: "func s = (Inl e, s')" "is_RequestException e" by auto
  have s': "s' = snd (func s)" using f(1) by simp
  have later: "\<forall>k < Suc n. \<exists>e t. func (((\<lambda>s. snd (func s)) ^^ k) s') = (Inl e, t)
             \<and> is_RequestException e"
  proof (intro allI impI)
    fix k assume "k < Suc n"
    then have "Suc k < Suc (Suc n)" by simp
    then have "\<exists>e t. func (((\<lambda>s. snd (func s)) ^^ Suc k) s) = (Inl e, t) \<and> is_RequestException e"
      using Suc.prems by blast
    then show "\<exists>e t. func (((\<lambda>s. snd (func s)) ^^ k) s') = (Inl e, t) \<and> is_RequestException e"
      unfolding s' by (simp only: funpow_Suc_right o_apply)
  qed
  note ih = Suc.IH [OF later, of "Some e"]
  have "backoff_loop func (Suc (Suc n)) last_exception s = backoff_loop func (Suc n) (Some e) s'"
    using f by simp
  also have "\<dots> = func (((\<lambda>s. snd (func s)) ^^ n) s')" using ih by simp
  also have "\<dots> = func (((\<lambda>s. snd (func s)) ^^ Suc n) s)"
    unfolding s' by (simp only: funpow_Suc_right o_apply)
  finally have loop: "backoff_loop func (Suc (Suc n)) last_exception s
      = func (((\<lambda>s. snd (func s)) ^^ Suc n) s)" .
  have "backoff_attempts func (Suc (Suc n)) s = Suc (backoff_attempts func (Suc n) s')"
    using f by simp
  then have "backoff_attempts func (Suc (Suc n)) s = Suc (Suc n)" using ih by simp
  then show ?case using loop by blast
qed

lemma search_google_flaky:
  "search_google default_config flaky_get ''q'' (three_keys, 0)
     = (Inr [''https://example.org/a'', ''https://example.org/a''],
        (three_keys\<lparr>current_key_index := 2\<rparr>, 3))"
  by code_simp

text \<open>
  C4. One logical search that needs a retry advances the cursor more than once: with
  three keys and a first attempt that fails to connect, \<open>search_google\<close> succeeds on
  the second attempt and leaves the cursor at 2, not at \<open>(0 + 1) mod 3\<close>.
\<close>

theorem search_google_rotation_counterexample:
  "fst (search_google default_config flaky_get ''q'' (three_keys, 0))
     = Inr [''https://example.org/a'', ''https://example.org/a'']
   \<and> current_key_index (fst (snd (search_google default_config flaky_get ''q'' (three_keys, 0)))) = 2
   \<and> (current_key_index three_keys + 1) mod length (api_keys three_keys) = 1"
  by (simp add: search_google_flaky) (simp add: three_keys_def)

text \<open>
  C4, amended. The cursor is advanced once per attempt: every call of the undecorated
  search function, successful or failed, advances it by exactly one modulo the pool
  size and changes no other field of the searcher; a call of \<open>search_google\<close> that
  makes \<open>n\<close> attempts advances it \<open>n\<close> times, where \<open>n\<close> is at most
  \<open>SCRAPER_MAX_RETRIES\<close>, at least one when that is positive, and exactly one when
  the first attempt returns or raises an exception that is not retried.
\<close>

theorem search_google_rotates_once_per_attempt:
  assumes "api_keys self \<noteq> []"
  shows "fst (snd (search_google_once cfg get query (self, w)))
           = self\<lparr>current_key_index :=
               (current_key_index self + 1) mod length (api_keys self)\<rparr>
       \<and> (let n = backoff_attempts (search_google_once cfg get query)
                     (nat (SCRAPER_MAX_RETRIES cfg)) (self, w)
          in fst (snd (search_google cfg get query (self, w)))
               = self\<lparr>current_key_index :=
                   (rotate_api_key_index (length (api_keys self)) ^^ n) (current_key_index self)\<rparr>
             \<and> n \<le> nat (SCRAPER_MAX_RETRIES cfg)
             \<and> (0 < SCRAPER_MAX_RETRIES cfg \<longrightarrow> 1 \<le> n)
             \<and> (0 < SCRAPER_MAX_RETRIES cfg
                  \<and> (case fst (search_google_once cfg get query (self, w)) of
                        Inr urls \<Rightarrow> True | Inl e \<Rightarrow> \<not> is_RequestException e)
                \<longrightarrow> n = 1))"
proof -
  let ?once = "search_google_once cfg get query"
  let ?m = "nat (SCRAPER_MAX_RETRIES cfg)"
  have one: "fst (snd (?once (self, w)))
           = self\<lparr>current_key_index := (current_key_index self + 1) mod length (api_keys self)\<rparr>"
    using search_google_once_state [OF assms, of cfg get query w]
    by (simp add: rotated_def rotate_api_key_index_def)
  have all: "fst (snd (search_google cfg get query (self, w)))
           = self\<lparr>current_key_index :=
               (rotate_api_key_index (length (api_keys self)) ^^ backoff_attempts ?once ?m (self, w))
                 (current_key_index self)\<rparr>"
    unfolding search_google_def exponential_backoff_def
    by (simp only: backoff_loop_search_state [OF assms] funpow_rotated)
  have le: "backoff_attempts ?once ?m (self, w) \<le> ?m"
    by (rule backoff_attempts_le)
  have pos: "0 < SCRAPER_MAX_RETRIES cfg \<longrightarrow> 1 \<le> backoff_attempts ?once ?m (self, w)"
  proof
    assume "0 < SCRAPER_MAX_RETRIES cfg"
    then have "0 < ?m" by simp
    then show "1 \<le> backoff_attempts ?once ?m (self, w)" by (rule backoff_attempts_pos)
  qed
  have first: "0 < SCRAPER_MAX_RETRIES cfg
                  \<and> (case fst (?once (self, w)) of
                        Inr urls \<Rightarrow> True | Inl e \<Rightarrow> \<not> is_RequestException e)
                \<longrightarrow> backoff_attempts ?once ?m (self, w) = 1"
  proof
    assume h: "0 < SCRAPER_MAX_RETRIES cfg
                  \<and> (case fst (?once (self, w)) of
                        Inr urls \<Rightarrow> True | Inl e \<Rightarrow> \<not> is_RequestException e)"
    then obtain k where k: "?m = Suc k" by (cases ?m) auto
    show "backoff_attempts ?once ?m (self, w) = 1"
      using h unfolding k by (auto split: prod.splits sum.splits)
  qed
  show ?thesis
    unfolding Let_def using one all le pos first by blast
qed

theorem search_google_rotates_once_per_attempt_witness:
  "api_keys three_keys \<noteq> []
   \<and> backoff_attempts (search_google_once default_config flaky_get ''q'') 3 (three_keys, 0) = 2
   \<and> fst (snd (search_google default_config flaky_get ''q'' (three_keys, 0)))
       = three_keys\<lparr>current_key_index := 2\<rparr>
   \<and> fst (snd (search_google_once default_config flaky_get ''q'' (three_keys, 0)))
       = three_keys\<lparr>current_key_index := 1\<rparr>"
proof -
  have h: "api_keys three_keys \<noteq> []" by (simp add: three_keys_def)
  have n: "backoff_attempts (search_google_once default_config flaky_get ''q'') 3 (three_keys, 0) = 2"
    by code_simp
  have m: "nat (SCRAPER_MAX_RETRIES default_config) = 3" by (simp add: default_config_def)
  have k: "current_key_index three_keys = 0" "length (api_keys three_keys) = 3"
    by (simp_all add: three_keys_def)
  note t = search_google_rotates_once_per_attempt [OF h, of default_config flaky_get "''q''" 0]
  have a: "fst (snd (search_google default_config flaky_get ''q'' (three_keys, 0)))
       = three_keys\<lparr>current_key_index := 2\<rparr>"
    using t unfolding Let_def m n k
    by (simp add: rotate_api_key_index_def numeral_2_eq_2)
  have b: "fst (snd (search_google_once default_config flaky_get ''q'' (three_keys, 0)))
       = three_keys\<lparr>current_key_index := 1\<rparr>"
    using t unfolding k by simp
  show ?thesis using h n a b by blast
qed

text \<open>
  C5. When every attempt times out, \<open>search_google\<close> does not return the failure as
  a value: the exception of the last attempt leaves the retry wrapper (the result is
  \<open>Inl\<close>, a raised exception).
\<close>

theorem exponential_backoff_raises_counterexample:
  "fst (search_google default_config dead_get ''q'' (three_keys, 0)) = Inl (Timeout ''read timed out'')
   \<and> snd (snd (search_google default_config dead_get ''q'' (three_keys, 0))) = 3"
  by code_simp

text \<open>
  C5, amended. For every wrapped operation that fails with a
  \<open>requests.RequestException\<close> on each of the \<open>SCRAPER_MAX_RETRIES\<close> attempts
  of a call (at least one), each attempt starting in the state the one before left,
  the retry wrapper makes exactly that many attempts and raises the exception of the
  last attempt to its caller.
\<close>

theorem exponential_backoff_raises_last_failure:
  assumes "\<forall>k < nat (SCRAPER_MAX_RETRIES cfg).
             \<exists>e s'. func (((\<lambda>s. snd (func s)) ^^ k) s) = (Inl e, s') \<and> is_RequestException e"
    and "0 < SCRAPER_MAX_RETRIES cfg"
  shows "exponential_backoff cfg func s
           = func (((\<lambda>s. snd (func s)) ^^ (nat (SCRAPER_MAX_RETRIES cfg) - 1)) s)
       \<and> (\<exists>e. fst (exponential_backoff cfg func s) = Inl e \<and> is_RequestException e)
       \<and> backoff_attempts func (nat (SCRAPER_MAX_RETRIES cfg)) s = nat (SCRAPER_MAX_RETRIES cfg)"
proof -
  obtain k where k: "nat (SCRAPER_MAX_RETRIES cfg) = Suc k"
    using assms(2) by (cases "nat (SCRAPER_MAX_RETRIES cfg)") auto
  have fails: "\<forall>j < Suc k. \<exists>e s'. func (((\<lambda>s. snd (func s)) ^^ j) s) = (Inl e, s')
             \<and> is_RequestException e"
    using assms(1) unfolding k .
  note l = backoff_loop_all_fail [OF fails, of None]
  have eq: "exponential_backoff cfg func s = func (((\<lambda>s. snd (func s)) ^^ k) s)"
    unfolding exponential_backoff_def k using l by simp
  have "\<exists>e s'. func (((\<lambda>s. snd (func s)) ^^ k) s) = (Inl e, s') \<and> is_RequestException e"
    using fails by blast
  then have ex: "\<exists>e. fst (exponential_backoff cfg func s) = Inl e \<and> is_RequestException e"
    using eq by auto
  have all: "backoff_attempts func (nat (SCRAPER_MAX_RETRIES cfg)) s = nat (SCRAPER_MAX_RETRIES cfg)"
    unfolding k using l by simp
  have k1: "nat (SCRAPER_MAX_RETRIES cfg) - 1 = k" using k by simp
  show ?thesis unfolding k1 using eq ex all by blast
qed

lemma dead_search_attempt:
  "search_google_once default_config dead_get ''q'' (three_keys\<lparr>current_key_index := i\<rparr>, w)
     = (if i < 3
        then (Inl (Timeout ''read timed out''),
              (three_keys\<lparr>current_key_index := (i + 1) mod 3\<rparr>, Suc w))
        else (Inl IndexError, (three_keys\<lparr>current_key_index := (i + 1) mod 3\<rparr>, w)))"
  by (simp add: search_google_once_def search_google_try_def search_google_except_def
      get_current_key_pair_def rotate_api_key_def dead_get_def three_keys_def)

theorem exponential_backoff_raises_last_failure_witness:
  "fst (search_google_once default_config dead_get ''q'' (three_keys, 0))
     = Inl (Timeout ''read timed out'')
   \<and> fst (search_google_once default_config dead_get ''q''
            (three_keys\<lparr>current_key_index := 1\<rparr>, 1))
     = Inl (Timeout ''read timed out'')
   \<and> fst (search_google_once default_config dead_get ''q''
            (three_keys\<lparr>current_key_index := 2\<rparr>, 2))
     = Inl (Timeout ''read timed out'')
   \<and> is_RequestException (Timeout ''read timed out'')
   \<and> 0 < SCRAPER_MAX_RETRIES default_config
   \<and> search_google default_config dead_get ''q'' (three_keys, 0)
       = (Inl (Timeout ''read timed out''), (three_keys, 3))
   \<and> backoff_attempts (search_google_once default_config dead_get ''q'') 3 (three_keys, 0) = 3"
proof -
  let ?once = "search_google_once default_config dead_get ''q''"
  let ?step = "\<lambda>s. snd (?once s)"
  have m: "nat (SCRAPER_MAX_RETRIES default_config) = 3" by (simp add: default_config_def)
  have t0: "three_keys = three_keys\<lparr>current_key_index := 0\<rparr>" by (simp add: three_keys_def)
  have s1: "?step (three_keys, 0) = (three_keys\<lparr>current_key_index := 1\<rparr>, 1)"
    using dead_search_attempt [of 0 0] t0 by simp
  have s2: "?step (three_keys\<lparr>current_key_index := 1\<rparr>, 1)
      = (three_keys\<lparr>current_key_index := 2\<rparr>, 2)"
    using dead_search_attempt [of 1 1] by (simp add: numeral_2_eq_2)
  have p0: "(?step ^^ 0) (three_keys, 0) = (three_keys\<lparr>current_key_index := 0\<rparr>, 0)"
    using t0 by simp
  have p1: "(?step ^^ 1) (three_keys, 0) = (three_keys\<lparr>current_key_index := 1\<rparr>, 1)"
    using s1 by simp
  have p2: "(?step ^^ 2) (three_keys, 0) = (three_keys\<lparr>current_key_index := 2\<rparr>, 2)"
    using s1 s2 by (simp add: numeral_2_eq_2)
  have visited: "\<exists>e s'. ?once ((?step ^^ k) (three_keys, 0)) = (Inl e, s') \<and> is_RequestException e"
    if "k < 3" for k
  proof -
    have "k = 0 \<or> k = 1 \<or> k = 2" using that by arith
    then consider "k = 0" | "k = 1" | "k = 2" by blast
    then show ?thesis
    proof cases
      case 1
      show ?thesis unfolding 1 p0 by (simp add: dead_search_attempt)
    next
      case 2
      show ?thesis unfolding 2 p1 by (simp add: dead_search_attempt)
    next
      case 3
      show ?thesis unfolding 3 p2 by (simp add: dead_search_attempt)
    qed
  qed
  have h1: "\<forall>k < nat (SCRAPER_MAX_RETRIES default_config).
      \<exists>e s'. ?once ((?step ^^ k) (three_keys, 0)) = (Inl e, s') \<and> is_RequestException e"
    unfolding m using visited by blast
  have h2: "0 < SCRAPER_MAX_RETRIES default_config" by (simp add: default_config_def)
  note t = exponential_backoff_raises_last_failure [OF h1 h2]
  have last: "?once ((?step ^^ 2) (three_keys, 0)) = (Inl (Timeout ''read timed out''), (three_keys, 3))"
    unfolding p2 using dead_search_attempt [of 2 2] t0 by simp
  have m1: "nat (SCRAPER_MAX_RETRIES default_config) - 1 = 2" using m by simp
  have r: "search_google default_config dead_get ''q'' (three_keys, 0)
       = (Inl (Timeout ''read timed out''), (three_keys, 3))"
    using t unfolding m1 last search_google_def by simp
  have n: "backoff_attempts ?once 3 (three_keys, 0) = 3"
    using t unfolding m by simp
  have a0: "fst (?once (three_keys, 0)) = Inl (Timeout ''read timed out'')"
    using dead_search_attempt [of 0 0] t0 by simp
  have a1: "fst (?once (three_keys\<lparr>current_key_index := 1\<rparr>, 1)) = Inl (Timeout ''read timed out'')"
    by (simp add: dead_search_attempt)
  have a2: "fst (?once (three_keys\<lparr>current_key_index := 2\<rparr>, 2)) = Inl (Timeout ''read timed out'')"
    by (simp add: dead_search_attempt)
  have c: "is_RequestException (Timeout ''read timed out'')" by simp
  show ?thesis using a0 a1 a2 c h2 r n by blast
qed

text \<open>
  C6. A 4xx answer is retried: when the provider answers every request with the
  status 403, \<open>search_google\<close> makes three attempts (three requests) before the
  \<open>HTTPError\<close> reaches the caller.
\<close>

theorem retry_on_http_error_counterexample:
  "search_google default_config forbidden_get ''q'' (three_keys, 0)
     = (Inl (HTTPError ''Client Error''), (three_keys, 3))
   \<and> backoff_attempts (search_google_once default_config forbidden_get ''q'') 3 (three_keys, 0) = 3"
  by code_simp


text \<open>
  C6, amended. The retry wrapper retries exactly the failures raised as
  \<open>requests.RequestException\<close>: network errors and timeouts of \<open>session.get\<close>,
  and also the HTTP error statuses (4xx and 5xx) that \<open>raise_for_status\<close> turns into
  an \<open>HTTPError\<close>. Every other failure, such as the \<open>ValueError\<close> of an error
  payload, fails on the first attempt with no retry.
\<close>

theorem exponential_backoff_retry_classes:
  "(func s = (Inl e, s') \<and> \<not> is_RequestException e \<and> 0 < SCRAPER_MAX_RETRIES cfg \<longrightarrow>
      exponential_backoff cfg func s = (Inl e, s')
      \<and> backoff_attempts func (nat (SCRAPER_MAX_RETRIES cfg)) s = 1)
   \<and> (func s = (Inl e, s') \<and> is_RequestException e \<and> 1 < SCRAPER_MAX_RETRIES cfg \<longrightarrow>
      exponential_backoff cfg func s
        = backoff_loop func (nat (SCRAPER_MAX_RETRIES cfg) - 1) (Some e) s'
      \<and> 2 \<le> backoff_attempts func (nat (SCRAPER_MAX_RETRIES cfg)) s)
   \<and> (get_current_key_pair self = Inr (api_key, search_engine_id)
       \<and> get w \<lparr> param_q = query, param_key = api_key, param_cx = search_engine_id,
                  param_num = 10, param_start = 1 \<rparr> = (r, w1) \<longrightarrow>
        (\<forall>x. r = Inl x \<longrightarrow> search_google_try get query self w = (Inl x, w1))
      \<and> (\<forall>response. r = Inr response
            \<and> 400 \<le> api_status_code response \<and> api_status_code response < 600 \<longrightarrow>
            (\<exists>x. search_google_try get query self w = (Inl x, w1) \<and> is_RequestException x))
      \<and> (\<forall>response data err. r = Inr response
            \<and> \<not> (400 \<le> api_status_code response \<and> api_status_code response < 600)
            \<and> api_json response = Inr data \<and> data_error data = Some err \<longrightarrow>
            (\<exists>x. search_google_try get query self w = (Inl x, w1) \<and> \<not> is_RequestException x)))"
proof (intro conjI impI allI)
  assume h: "func s = (Inl e, s') \<and> \<not> is_RequestException e \<and> 0 < SCRAPER_MAX_RETRIES cfg"
  then obtain k where k: "nat (SCRAPER_MAX_RETRIES cfg) = Suc k"
    by (cases "nat (SCRAPER_MAX_RETRIES cfg)") auto
  show "exponential_backoff cfg func s = (Inl e, s')"
    using h unfolding exponential_backoff_def k by simp
  show "backoff_attempts func (nat (SCRAPER_MAX_RETRIES cfg)) s = 1"
    using h unfolding k by simp
next
  assume h: "func s = (Inl e, s') \<and> is_RequestException e \<and> 1 < SCRAPER_MAX_RETRIES cfg"
  define k where "k = nat (SCRAPER_MAX_RETRIES cfg) - 2"
  have "2 \<le> nat (SCRAPER_MAX_RETRIES cfg)" using h by linarith
  then have k: "nat (SCRAPER_MAX_RETRIES cfg) = Suc (Suc k)"
    unfolding k_def by arith
  have k1: "nat (SCRAPER_MAX_RETRIES cfg) - 1 = Suc k" using k by simp
  show "exponential_backoff cfg func s
        = backoff_loop func (nat (SCRAPER_MAX_RETRIES cfg) - 1) (Some e) s'"
    unfolding exponential_backoff_def k1 unfolding k using h by simp
  have "1 \<le> backoff_attempts func (Suc k) s'" by (rule backoff_attempts_pos) simp
  then show "2 \<le> backoff_attempts func (nat (SCRAPER_MAX_RETRIES cfg)) s"
    unfolding k using h by simp
next
  fix x
  assume "get_current_key_pair self = Inr (api_key, search_engine_id)
       \<and> get w \<lparr> param_q = query, param_key = api_key, param_cx = search_engine_id,
                  param_num = 10, param_start = 1 \<rparr> = (r, w1)"
    and "r = Inl x"
  then show "search_google_try get query self w = (Inl x, w1)"
    by (simp add: search_google_try_def)
next
  fix response
  assume "get_current_key_pair self = Inr (api_key, search_engine_id)
       \<and> get w \<lparr> param_q = query, param_key = api_key, param_cx = search_engine_id,
                  param_num = 10, param_start = 1 \<rparr> = (r, w1)"
    and "r = Inr response
            \<and> 400 \<le> api_status_code response \<and> api_status_code response < 600"
  then show "\<exists>x. search_google_try get query self w = (Inl x, w1) \<and> is_RequestException x"
    by (auto simp: search_google_try_def raise_for_status_def)
next
  fix response data err
  assume "get_current_key_pair self = Inr (api_key, search_engine_id)
       \<and> get w \<lparr> param_q = query, param_key = api_key, param_cx = search_engine_id,
                  param_num = 10, param_start = 1 \<rparr> = (r, w1)"
    and "r = Inr response
            \<and> \<not> (400 \<le> api_status_code response \<and> api_status_code response < 600)
            \<and> api_json response = Inr data \<and> data_error data = Some err"
  then show "\<exists>x. search_google_try get query self w = (Inl x, w1) \<and> \<not> is_RequestException x"
    by (auto simp: search_google_try_def raise_for_status_def)
qed


theorem exponential_backoff_retry_classes_witness:
  "exponential_backoff default_config (search_google_once default_config quota_get ''q'')
       (three_keys, 0)
     = (Inl (ValueError ''Google API error: Quota exceeded''),
        (three_keys\<lparr>current_key_index := 1\<rparr>, 1))
   \<and> 2 \<le> backoff_attempts (search_google_once default_config forbidden_get ''q'')
            (nat (SCRAPER_MAX_RETRIES default_config)) (three_keys, 0)
   \<and> (\<exists>x. search_google_try forbidden_get ''q'' three_keys 0 = (Inl x, 1) \<and> is_RequestException x)
   \<and> (\<exists>x. search_google_try quota_get ''q'' three_keys 0 = (Inl x, 1) \<and> \<not> is_RequestException x)
   \<and> search_google_try dead_get ''q'' three_keys 0 = (Inl (Timeout ''read timed out''), 1)"
proof -
  have m: "0 < SCRAPER_MAX_RETRIES default_config" "1 < SCRAPER_MAX_RETRIES default_config"
    by (simp_all add: default_config_def)
  have kp: "get_current_key_pair three_keys = Inr (''key1'', ''cx1'')"
    by (simp add: get_current_key_pair_def three_keys_def)
  have q1: "search_google_once default_config quota_get ''q'' (three_keys, 0)
      = (Inl (ValueError ''Google API error: Quota exceeded''),
         (three_keys\<lparr>current_key_index := 1\<rparr>, 1))"
    by code_simp
  have f1: "search_google_once default_config forbidden_get ''q'' (three_keys, 0)
      = (Inl (HTTPError ''Client Error''), (three_keys\<lparr>current_key_index := 1\<rparr>, 1))"
    by code_simp
  have a: "exponential_backoff default_config (search_google_once default_config quota_get ''q'')
       (three_keys, 0)
     = (Inl (ValueError ''Google API error: Quota exceeded''),
        (three_keys\<lparr>current_key_index := 1\<rparr>, 1))"
    using exponential_backoff_retry_classes [where func = "search_google_once default_config quota_get ''q''"
        and s = "(three_keys, 0)" and e = "ValueError ''Google API error: Quota exceeded''"
        and s' = "(three_keys\<lparr>current_key_index := 1\<rparr>, 1)" and cfg = default_config,
        THEN conjunct1] q1 m(1)
    by simp
  have b: "2 \<le> backoff_attempts (search_google_once default_config forbidden_get ''q'')
            (nat (SCRAPER_MAX_RETRIES default_config)) (three_keys, 0)"
    using exponential_backoff_retry_classes [where func = "search_google_once default_config forbidden_get ''q''"
        and s = "(three_keys, 0)" and e = "HTTPError ''Client Error''"
        and s' = "(three_keys\<lparr>current_key_index := 1\<rparr>, 1)" and cfg = default_config,
        THEN conjunct2, THEN conjunct1] f1 m(2)
    by simp
  have g403: "forbidden_get 0 \<lparr> param_q = ''q'', param_key = ''key1'', param_cx = ''cx1'',
                  param_num = 10, param_start = 1 \<rparr>
      = (Inr \<lparr> api_status_code = 403, api_json = Inl (ValueError ''no JSON'') \<rparr>, 1)"
    by (simp add: forbidden_get_def)
  have c: "\<exists>x. search_google_try forbidden_get ''q'' three_keys 0 = (Inl x, 1) \<and> is_RequestException x"
    using exponential_backoff_retry_classes [where get = forbidden_get and self = three_keys
        and api_key = "''key1''" and search_engine_id = "''cx1''" and w = 0 and query = "''q''"
        and r = "Inr \<lparr> api_status_code = 403, api_json = Inl (ValueError ''no JSON'') \<rparr>"
        and ?w1.0 = 1, THEN conjunct2, THEN conjunct2] kp g403
    by simp
  have gq: "quota_get 0 \<lparr> param_q = ''q'', param_key = ''key1'', param_cx = ''cx1'',
                  param_num = 10, param_start = 1 \<rparr>
      = (Inr \<lparr> api_status_code = 200,
            api_json = Inr \<lparr> data_error = Some (Some ''Quota exceeded''), data_items = None \<rparr> \<rparr>, 1)"
    by (simp add: quota_get_def)
  have d: "\<exists>x. search_google_try quota_get ''q'' three_keys 0 = (Inl x, 1) \<and> \<not> is_RequestException x"
    using exponential_backoff_retry_classes [where get = quota_get and self = three_keys
        and api_key = "''key1''" and search_engine_id = "''cx1''" and w = 0 and query = "''q''"
        and r = "Inr \<lparr> api_status_code = 200,
            api_json = Inr \<lparr> data_error = Some (Some ''Quota exceeded''), data_items = None \<rparr> \<rparr>"
        and ?w1.0 = 1, THEN conjunct2, THEN conjunct2] kp gq
    by simp
  have gd: "dead_get 0 \<lparr> param_q = ''q'', param_key = ''key1'', param_cx = ''cx1'',
                  param_num = 10, param_start = 1 \<rparr> = (Inl (Timeout ''read timed out''), 1)"
    by (simp add: dead_get_def)
  have e: "search_google_try dead_get ''q'' three_keys 0 = (Inl (Timeout ''read timed out''), 1)"
    using exponential_backoff_retry_classes [where get = dead_get and self = three_keys
        and api_key = "''key1''" and search_engine_id = "''cx1''" and w = 0 and query = "''q''"
        and r = "Inl (Timeout ''read timed out'')"
        and ?w1.0 = 1, THEN conjunct2, THEN conjunct2] kp gd
    by simp
  show ?thesis using a b c d e by blast
qed

section \<open>Fetch completeness\<close>

lemma separate_complete:
  "separate cfg zs = (rs, fs) \<Longrightarrow>
     length rs + length fs = length zs
     \<and> mset (map original_url rs) + mset (map fu_url fs) = mset (map fst zs)"
proof (induction zs arbitrary: rs fs)
  case Nil
  then show ?case by simp
next
  case (Cons z zs)
  obtain url result where z: "z = (url, result)" by (cases z)
  obtain rs' fs' where rest: "separate cfg zs = (rs', fs')" by (cases "separate cfg zs")
  note ih = Cons.IH [OF rest]
  show ?case
  proof (cases "is_ok result")
    case True
    then have "rs = to_scraped cfg url result # rs'" "fs = fs'"
      using Cons.prems z rest by simp_all
    then show ?thesis using ih z by (simp add: to_scraped_def)
  next
    case False
    then have "rs = rs'" "fs = to_failed url result # fs'"
      using Cons.prems z rest by simp_all
    then show ?thesis using ih z by (simp add: to_failed_def)
  qed
qed

lemma scrape_urls_async_complete:
  assumes "scrape_urls_async cfg lib env urls = (rs, fs)"
  shows "length rs + length fs = length urls
     \<and> mset (map original_url rs) + mset (map fu_url fs) = mset urls"
proof (cases "urls = []")
  case True
  then show ?thesis using assms by (simp add: scrape_urls_async_def)
next
  case False
  let ?results = "map (\<lambda>(i, url). fetch_single_url cfg lib env i url 1)
                          (zip [0 ..< length urls] urls)"
  have len: "length ?results = length urls" by simp
  have sep: "separate cfg (zip urls ?results) = (rs, fs)"
    using assms False by (simp add: scrape_urls_async_def)
  have "map fst (zip urls ?results) = urls"
    using len by (simp only: map_fst_zip)
  moreover have "length (zip urls ?results) = length urls"
    using len by simp
  ultimately show ?thesis using separate_complete [OF sep] by simp
qed

lemma fetch_and_parse_once_returns:
  "\<exists>result w'. fetch_and_parse_once cfg lib env url w = (Inr result, w')"
  by (simp add: fetch_and_parse_once_def Let_def split: prod.splits sum.splits)

lemma fetch_and_parse_returns:
  assumes "0 < SCRAPER_MAX_RETRIES cfg"
  shows "\<exists>result w'. fetch_and_parse cfg lib env url w = (Inr result, w')"
proof -
  obtain k where k: "nat (SCRAPER_MAX_RETRIES cfg) = Suc k"
    using assms by (cases "nat (SCRAPER_MAX_RETRIES cfg)") auto
  obtain result w' where "fetch_and_parse_once cfg lib env url w = (Inr result, w')"
    using fetch_and_parse_once_returns [of cfg lib env url w] by blast
  then show ?thesis
    unfolding fetch_and_parse_def exponential_backoff_def k by simp
qed

lemma scrape_urls_sync_complete:
  assumes "0 < SCRAPER_MAX_RETRIES cfg"
  shows "\<exists>rs fs w'. scrape_urls cfg lib env urls w = (Inr (rs, fs), w')
     \<and> length rs + length fs = length urls
     \<and> mset (map original_url rs) + mset (map fu_url fs) = mset urls"
proof (induction urls arbitrary: w)
  case Nil
  show ?case by simp
next
  case (Cons url urls)
  obtain result w1 where f: "fetch_and_parse cfg lib env url w = (Inr result, w1)"
    using fetch_and_parse_returns [OF assms, of lib env url w] by blast
  obtain rs fs w2 where r: "scrape_urls cfg lib env urls w1 = (Inr (rs, fs), w2)"
    "length rs + length fs = length urls"
    "mset (map original_url rs) + mset (map fu_url fs) = mset urls"
    using Cons.IH [of w1] by blast
  show ?case
  proof (cases "is_ok result")
    case True
    then have "scrape_urls cfg lib env (url # urls) w
                 = (Inr (to_scraped cfg url result # rs, fs), w2)"
      using f r(1) by simp
    then show ?thesis using r(2,3) by (simp add: to_scraped_def)
  next
    case False
    then have "scrape_urls cfg lib env (url # urls) w
                 = (Inr (rs, to_failed url result # fs), w2)"
      using f r(1) by simp
    then show ?thesis using r(2,3) by (simp add: to_failed_def)
  qed
qed

lemma once_each:
  assumes "mset (map original_url rs) + mset (map fu_url fs) = mset urls" and "distinct urls"
  shows "distinct (map original_url rs @ map fu_url fs)"
proof -
  have "mset (map original_url rs @ map fu_url fs) = mset urls" using assms(1) by simp
  then show ?thesis using assms(2) by (metis mset_eq_imp_distinct_iff)
qed

lemma example_domain: "extract_domain example_urlparse url = ''example.org''"
  by (simp add: extract_domain_def example_urlparse_def)

lemma example_html_nonempty: "example_html \<noteq> []"
  by (simp add: example_html_def)

lemma example_crawl_a:
  "is_ok (fetch_single_url default_config example_lib example_crawler i ''a'' 1)"
  by (simp add: fetch_single_url.simps [of _ _ _ _ _ 1] example_crawler_def Let_def
      example_clean_text fetch_cleaned_def is_ok_def example_html_nonempty)

lemma example_crawl_b:
  "\<not> is_ok (fetch_single_url default_config example_lib example_crawler i ''b'' 1)"
proof -
  have m: "SCRAPER_MAX_RETRIES default_config = 3" by (simp add: default_config_def)
  have 3: "fetch_single_url default_config example_lib example_crawler i ''b'' 3
      = fetch_failure ''timeout'' (Some ''Request timeout'') ''example.org'' 5"
    by (simp add: fetch_single_url.simps [of _ _ _ _ _ 3] example_crawler_def Let_def m
        example_domain)
  have 2: "fetch_single_url default_config example_lib example_crawler i ''b'' 2
      = fetch_single_url default_config example_lib example_crawler i ''b'' 3"
    by (simp add: fetch_single_url.simps [of _ _ _ _ _ 2] example_crawler_def Let_def m)
  have 1: "fetch_single_url default_config example_lib example_crawler i ''b'' 1
      = fetch_single_url default_config example_lib example_crawler i ''b'' 2"
    by (simp add: fetch_single_url.simps [of _ _ _ _ _ 1] example_crawler_def Let_def m)
  show ?thesis unfolding 1 2 3 by (simp add: is_ok_def fetch_failure_def)
qed


lemma example_async:
  "scrape_urls_async default_config example_lib example_crawler [''a'', ''b'']
     = ([to_scraped default_config ''a''
           (fetch_single_url default_config example_lib example_crawler 0 ''a'' 1)],
        [to_failed ''b''
           (fetch_single_url default_config example_lib example_crawler 1 ''b'' 1)])"
proof -
  have z: "zip [0 ..< length [''a'', ''b'']] [''a'', ''b''] = [(0, ''a''), (1, ''b'')]"
    by (simp add: upt_rec)
  show ?thesis
    unfolding scrape_urls_async_def z
    by (simp add: example_crawl_a [of 0] example_crawl_b [of 1] del: One_nat_def)
qed

lemma example_fetch_a:
  "\<exists>r. fetch_and_parse default_config example_lib example_web ''a'' w = (Inr r, Suc w) \<and> is_ok r"
proof -
  have ct: "lower_char CHR ''t'' = CHR ''t''" "lower_char CHR ''e'' = CHR ''e''"
    "lower_char CHR ''x'' = CHR ''x''" "lower_char CHR ''/'' = CHR ''/''"
    "lower_char CHR ''h'' = CHR ''h''" "lower_char CHR ''m'' = CHR ''m''"
    "lower_char CHR ''l'' = CHR ''l''"
    by code_simp+
  have "fetch_and_parse_once default_config example_lib example_web ''a'' w
      = (Inr (fetch_cleaned \<lparr> cr_cleaned_text = example_text, cr_content_length = 5,
             cr_extraction_confidence = 0.95, cr_raw_text_length = 5,
             cr_status = ''partial'', cr_error = None \<rparr> ''example.org'' 5), Suc w)"
    by (simp add: fetch_and_parse_once_def example_web_def raise_for_status_def ct
        example_clean_text example_domain)
  then show ?thesis
    by (simp add: fetch_and_parse_def exponential_backoff_def default_config_def
        numeral_3_eq_3 is_ok_def fetch_cleaned_def)
qed

lemma example_fetch_b:
  "\<exists>r. fetch_and_parse default_config example_lib example_web ''b'' w = (Inr r, Suc w) \<and> \<not> is_ok r"
proof -
  have "fetch_and_parse_once default_config example_lib example_web ''b'' w
      = (Inr (fetch_failure ''failed'' (Some ''Client Error'') ''example.org'' 5), Suc w)"
    by (simp add: fetch_and_parse_once_def example_web_def raise_for_status_def
        fetch_except_def example_domain)
  then show ?thesis
    by (simp add: fetch_and_parse_def exponential_backoff_def default_config_def
        numeral_3_eq_3 is_ok_def fetch_failure_def)
qed

lemma example_sync:
  "\<exists>r1 r2. scrape_urls default_config example_lib example_web [''a'', ''b''] 0
     = (Inr ([to_scraped default_config ''a'' r1], [to_failed ''b'' r2]), 2)"
proof -
  obtain r1 where a: "fetch_and_parse default_config example_lib example_web ''a'' 0 = (Inr r1, Suc 0)"
    "is_ok r1" using example_fetch_a [of 0] by blast
  obtain r2 where b: "fetch_and_parse default_config example_lib example_web ''b'' (Suc 0) = (Inr r2, Suc (Suc 0))"
    "\<not> is_ok r2" using example_fetch_b [of "Suc 0"] by blast
  have "scrape_urls default_config example_lib example_web [''a'', ''b''] 0
     = (Inr ([to_scraped default_config ''a'' r1], [to_failed ''b'' r2]), 2)"
    using a b by (simp add: numeral_2_eq_2)
  then show ?thesis by blast
qed


text \<open>
  C1. For every list of URLs, \<open>scrape_urls_async\<close> returns a pair of successes
  and failures whose lengths add up to the length of the input and whose URLs are,
  counted with multiplicity, the input URLs: every input URL is in one of the two
  sequences, once for each time it is in the input, so for an input without repetition
  exactly once in exactly one of them. \<open>WebScraper.scrape_urls\<close> does the same
  whenever the retry decorator makes an attempt at all (\<open>SCRAPER_MAX_RETRIES\<close> is
  positive; its default is 3).
\<close>

theorem scrape_urls_complete:
  "(case scrape_urls_async cfg lib cenv urls of
      (successes, failures) \<Rightarrow>
        length successes + length failures = length urls
        \<and> mset (map original_url successes) + mset (map fu_url failures) = mset urls
        \<and> (distinct urls \<longrightarrow> distinct (map original_url successes @ map fu_url failures)))
   \<and> (0 < SCRAPER_MAX_RETRIES cfg \<longrightarrow>
        (\<exists>successes failures w'.
           scrape_urls cfg lib wenv urls w = (Inr (successes, failures), w')
           \<and> length successes + length failures = length urls
           \<and> mset (map original_url successes) + mset (map fu_url failures) = mset urls
           \<and> (distinct urls \<longrightarrow> distinct (map original_url successes @ map fu_url failures))))"
proof (intro conjI impI)
  obtain rs fs where a: "scrape_urls_async cfg lib cenv urls = (rs, fs)"
    by (cases "scrape_urls_async cfg lib cenv urls")
  note c = scrape_urls_async_complete [OF a]
  have "distinct urls \<longrightarrow> distinct (map original_url rs @ map fu_url fs)"
    using c once_each by blast
  then show "case scrape_urls_async cfg lib cenv urls of
      (successes, failures) \<Rightarrow>
        length successes + length failures = length urls
        \<and> mset (map original_url successes) + mset (map fu_url failures) = mset urls
        \<and> (distinct urls \<longrightarrow> distinct (map original_url successes @ map fu_url failures))"
    using a c by simp
next
  assume m: "0 < SCRAPER_MAX_RETRIES cfg"
  obtain rs fs w' where s: "scrape_urls cfg lib wenv urls w = (Inr (rs, fs), w')"
    "length rs + length fs = length urls"
    "mset (map original_url rs) + mset (map fu_url fs) = mset urls"
    using scrape_urls_sync_complete [OF m, of lib wenv urls w] by blast
  have "distinct urls \<longrightarrow> distinct (map original_url rs @ map fu_url fs)"
    using s(3) once_each by blast
  then show "\<exists>successes failures w'.
           scrape_urls cfg lib wenv urls w = (Inr (successes, failures), w')
           \<and> length successes + length failures = length urls
           \<and> mset (map original_url successes) + mset (map fu_url failures) = mset urls
           \<and> (distinct urls \<longrightarrow> distinct (map original_url successes @ map fu_url failures))"
    using s by blast
qed

theorem scrape_urls_complete_witness:
  "0 < SCRAPER_MAX_RETRIES default_config \<and> distinct [''a'', ''b'']
   \<and> map original_url (fst (scrape_urls_async default_config example_lib example_crawler [''a'', ''b''])) = [''a'']
   \<and> map fu_url (snd (scrape_urls_async default_config example_lib example_crawler [''a'', ''b''])) = [''b'']
   \<and> (\<exists>successes failures w'.
         scrape_urls default_config example_lib example_web [''a'', ''b''] 0
           = (Inr (successes, failures), w')
         \<and> map original_url successes = [''a''] \<and> map fu_url failures = [''b'']
         \<and> distinct (map original_url successes @ map fu_url failures))"
proof -
  have m: "0 < SCRAPER_MAX_RETRIES default_config" by (simp add: default_config_def)
  have d: "distinct [''a'', ''b'']" by simp
  have a: "map original_url (fst (scrape_urls_async default_config example_lib example_crawler [''a'', ''b''])) = [''a'']"
    "map fu_url (snd (scrape_urls_async default_config example_lib example_crawler [''a'', ''b''])) = [''b'']"
    by (simp_all add: example_async to_scraped_def to_failed_def)
  note t = scrape_urls_complete [where cfg = default_config and lib = example_lib
      and cenv = example_crawler and urls = "[''a'', ''b'']" and wenv = example_web and w = 0,
      THEN conjunct2, rule_format, OF m]
  obtain r1 r2 where e: "scrape_urls default_config example_lib example_web [''a'', ''b''] 0
     = (Inr ([to_scraped default_config ''a'' r1], [to_failed ''b'' r2]), 2)"
    using example_sync by blast
  have "\<exists>successes failures w'.
         scrape_urls default_config example_lib example_web [''a'', ''b''] 0
           = (Inr (successes, failures), w')
         \<and> map original_url successes = [''a''] \<and> map fu_url failures = [''b'']
         \<and> distinct (map original_url successes @ map fu_url failures)"
    using t e d by (auto simp: to_scraped_def to_failed_def)
  then show ?thesis using m d a by blast
qed

section \<open>Idempotent storage\<close>

lemma stored_key [simp]:
  "mention_key (m\<lparr>time_stamp := t\<rparr>) = mention_key m"
  by (simp add: mention_key_def)

lemma insert_loop_mysql:
  "\<exists>c' ins' sk'. insert_loop mysql now ms c ins sk = (None, c', ins', sk')
     \<and> ins' + sk' = ins + sk + int (length ms)
     \<and> table_rows c' = table_rows c
     \<and> (distinct (map mention_key (table_rows c @ txn_rows c))
          \<longrightarrow> distinct (map mention_key (table_rows c' @ txn_rows c')))"
proof (induction ms arbitrary: c ins sk)
  case Nil
  show ?case by simp
next
  case (Cons m ms)
  let ?v = "m\<lparr>time_stamp := Some (case time_stamp m of None \<Rightarrow> now | Some t \<Rightarrow> t)\<rparr>"
  show ?case
  proof (cases "mention_key m \<in> set (map mention_key (table_rows c @ txn_rows c))")
    case True
    then have step: "insert_loop mysql now (m # ms) c ins sk = insert_loop mysql now ms c ins (sk + 1)"
      by (simp add: mysql_def Let_def)
    obtain c' ins' sk' where ih: "insert_loop mysql now ms c ins (sk + 1) = (None, c', ins', sk')"
      "ins' + sk' = ins + (sk + 1) + int (length ms)" "table_rows c' = table_rows c"
      "distinct (map mention_key (table_rows c @ txn_rows c))
          \<longrightarrow> distinct (map mention_key (table_rows c' @ txn_rows c'))"
      using Cons.IH [of c ins "sk + 1"] by blast
    have "ins' + sk' = ins + sk + int (length (m # ms))" using ih(2) by simp
    then show ?thesis unfolding step using ih(1,3,4) by blast
  next
    case False
    let ?c = "c\<lparr>txn_rows := txn_rows c @ [?v]\<rparr>"
    have step: "insert_loop mysql now (m # ms) c ins sk = insert_loop mysql now ms ?c (ins + 1) sk"
      using False by (simp add: mysql_def Let_def)
    have d: "distinct (map mention_key (table_rows c @ txn_rows c))
          \<longrightarrow> distinct (map mention_key (table_rows ?c @ txn_rows ?c))"
      using False by auto
    obtain c' ins' sk' where ih: "insert_loop mysql now ms ?c (ins + 1) sk = (None, c', ins', sk')"
      "ins' + sk' = ins + 1 + sk + int (length ms)" "table_rows c' = table_rows ?c"
      "distinct (map mention_key (table_rows ?c @ txn_rows ?c))
          \<longrightarrow> distinct (map mention_key (table_rows c' @ txn_rows c'))"
      using Cons.IH [of ?c "ins + 1" sk] by blast
    have n: "ins' + sk' = ins + sk + int (length (m # ms))" using ih(2) by simp
    have t: "table_rows c' = table_rows c" using ih(3) by simp
    have "distinct (map mention_key (table_rows c @ txn_rows c))
          \<longrightarrow> distinct (map mention_key (table_rows c' @ txn_rows c'))"
      using d ih(4) by blast
    then show ?thesis unfolding step using ih(1) n t by blast
  qed
qed

lemma batch_insert_mysql:
  "\<exists>inserted skipped c'.
      batch_insert_mentions mysql now c mentions = (Inr (inserted, skipped), c')
      \<and> inserted + skipped = int (length mentions)
      \<and> txn_rows c' = []
      \<and> (distinct (map mention_key (table_rows c @ txn_rows c))
           \<longrightarrow> distinct (map mention_key (table_rows c')))"
proof -
  obtain c1 ins sk where l: "insert_loop mysql now mentions c 0 0 = (None, c1, ins, sk)"
    "ins + sk = 0 + 0 + int (length mentions)"
    "distinct (map mention_key (table_rows c @ txn_rows c))
          \<longrightarrow> distinct (map mention_key (table_rows c1 @ txn_rows c1))"
    using insert_loop_mysql [of now mentions c 0 0] by blast
  have b: "batch_insert_mentions mysql now c mentions
      = (Inr (ins, sk), \<lparr> table_rows = table_rows c1 @ txn_rows c1, txn_rows = [] \<rparr>)"
    using l(1) by (simp add: batch_insert_mentions_def mysql_def)
  show ?thesis unfolding b using l(2,3) by simp
qed

lemma batch_insert_twice:
  assumes "txn_rows c = []" and "mention_key m \<notin> mention_key ` set (table_rows c)"
  shows "\<exists>c'. batch_insert_mentions mysql now c [m, m] = (Inr (1, 1), c')
           \<and> length (filter (\<lambda>r. mention_key r = mention_key m) (table_rows c')) = 1"
proof -
  let ?v = "m\<lparr>time_stamp := Some (case time_stamp m of None \<Rightarrow> now | Some t \<Rightarrow> t)\<rparr>"
  have "\<And>r. r \<in> set (table_rows c) \<Longrightarrow> mention_key r \<noteq> mention_key m"
    using assms(2) by (metis imageI)
  then have none: "filter (\<lambda>r. mention_key r = mention_key m) (table_rows c) = []"
    by (simp add: filter_empty_conv)
  have "batch_insert_mentions mysql now c [m, m]
      = (Inr (1, 1), \<lparr> table_rows = table_rows c @ [?v], txn_rows = [] \<rparr>)"
    using assms by (simp add: batch_insert_mentions_def mysql_def Let_def)
  then show ?thesis using none by simp
qed

lemma batch_insert_two_calls:
  assumes "txn_rows c = []" and "mention_key m \<notin> mention_key ` set (table_rows c)"
  shows "\<exists>c1 c2. batch_insert_mentions mysql now c [m] = (Inr (1, 0), c1)
           \<and> batch_insert_mentions mysql now c1 [m] = (Inr (0, 1), c2)
           \<and> length (filter (\<lambda>r. mention_key r = mention_key m) (table_rows c2)) = 1"
proof -
  let ?v = "m\<lparr>time_stamp := Some (case time_stamp m of None \<Rightarrow> now | Some t \<Rightarrow> t)\<rparr>"
  let ?c1 = "\<lparr> table_rows = table_rows c @ [?v], txn_rows = [] \<rparr>"
  have "\<And>r. r \<in> set (table_rows c) \<Longrightarrow> mention_key r \<noteq> mention_key m"
    using assms(2) by (metis imageI)
  then have none: "filter (\<lambda>r. mention_key r = mention_key m) (table_rows c) = []"
    by (simp add: filter_empty_conv)
  have one: "batch_insert_mentions mysql now c [m] = (Inr (1, 0), ?c1)"
    using assms by (simp add: batch_insert_mentions_def mysql_def Let_def)
  have two: "batch_insert_mentions mysql now ?c1 [m] = (Inr (0, 1), ?c1)"
    by (simp add: batch_insert_mentions_def mysql_def Let_def)
  show ?thesis using one two none by simp
qed


text \<open>
  C3. \<open>batch_insert_mentions\<close> never raises for a duplicate key: with any
  connection, a mention whose insert raises a \<open>MySQLError\<close> is counted as skipped
  and the loop goes on. On the store with the unique key it returns counts for every
  sequence of mentions and every store, the counts add up to the number of mentions,
  and the keys of the table stay unique. Inserting a mention whose key is new twice,
  in one call or in two, gives one insert and one skip, and the table then holds
  exactly one row of that key.
\<close>

theorem batch_insert_mentions_dedup:
  "(execute_insert db conn
       (m\<lparr>time_stamp := Some (case time_stamp m of None \<Rightarrow> now | Some t \<Rightarrow> t)\<rparr>)
      = (Inl (MySQLError msg), conn') \<longrightarrow>
      insert_loop db now (m # ms) conn inserted skipped
        = insert_loop db now ms conn' inserted (skipped + 1))
   \<and> (\<exists>inserted skipped c'.
         batch_insert_mentions mysql now c mentions = (Inr (inserted, skipped), c')
         \<and> inserted + skipped = int (length mentions)
         \<and> (distinct (map mention_key (table_rows c @ txn_rows c))
              \<longrightarrow> distinct (map mention_key (table_rows c'))))
   \<and> (txn_rows c = [] \<and> mention_key m \<notin> mention_key ` set (table_rows c) \<longrightarrow>
        (\<exists>c'. batch_insert_mentions mysql now c [m, m] = (Inr (1, 1), c')
              \<and> length (filter (\<lambda>r. mention_key r = mention_key m) (table_rows c')) = 1)
        \<and> (\<exists>c1 c2. batch_insert_mentions mysql now c [m] = (Inr (1, 0), c1)
              \<and> batch_insert_mentions mysql now c1 [m] = (Inr (0, 1), c2)
              \<and> length (filter (\<lambda>r. mention_key r = mention_key m) (table_rows c2)) = 1))"
proof (intro conjI impI)
  assume "execute_insert db conn
       (m\<lparr>time_stamp := Some (case time_stamp m of None \<Rightarrow> now | Some t \<Rightarrow> t)\<rparr>)
      = (Inl (MySQLError msg), conn')"
  then show "insert_loop db now (m # ms) conn inserted skipped
        = insert_loop db now ms conn' inserted (skipped + 1)"
    by (simp add: Let_def)
next
  show "\<exists>inserted skipped c'.
         batch_insert_mentions mysql now c mentions = (Inr (inserted, skipped), c')
         \<and> inserted + skipped = int (length mentions)
         \<and> (distinct (map mention_key (table_rows c @ txn_rows c))
              \<longrightarrow> distinct (map mention_key (table_rows c')))"
    using batch_insert_mysql [of now c mentions] by blast
next
  assume h: "txn_rows c = [] \<and> mention_key m \<notin> mention_key ` set (table_rows c)"
  show "\<exists>c'. batch_insert_mentions mysql now c [m, m] = (Inr (1, 1), c')
              \<and> length (filter (\<lambda>r. mention_key r = mention_key m) (table_rows c')) = 1"
    using h batch_insert_twice [of c m now] by blast
  show "\<exists>c1 c2. batch_insert_mentions mysql now c [m] = (Inr (1, 0), c1)
              \<and> batch_insert_mentions mysql now c1 [m] = (Inr (0, 1), c2)
              \<and> length (filter (\<lambda>r. mention_key r = mention_key m) (table_rows c2)) = 1"
    using h batch_insert_two_calls [of c m now] by blast
qed

theorem batch_insert_mentions_dedup_witness:
  "txn_rows empty_store = [] \<and> mention_key example_mention \<notin> mention_key ` set (table_rows empty_store)
   \<and> (\<exists>c'. batch_insert_mentions mysql ''now'' empty_store [example_mention, example_mention]
               = (Inr (1, 1), c')
          \<and> length (filter (\<lambda>r. mention_key r = mention_key example_mention) (table_rows c')) = 1)
   \<and> execute_insert mysql \<lparr> table_rows = [example_mention], txn_rows = [] \<rparr>
        (example_mention\<lparr>time_stamp := Some ''now''\<rparr>)
       = (Inl (MySQLError ''1062 (23000): Duplicate entry for key celebrity_mentions''),
          \<lparr> table_rows = [example_mention], txn_rows = [] \<rparr>)
   \<and> insert_loop mysql ''now'' [example_mention] \<lparr> table_rows = [example_mention], txn_rows = [] \<rparr> 0 0
       = (None, \<lparr> table_rows = [example_mention], txn_rows = [] \<rparr>, 0, 1)"
proof -
  have h: "txn_rows empty_store = [] \<and> mention_key example_mention \<notin> mention_key ` set (table_rows empty_store)"
    by (simp add: empty_store_def)
  have a: "\<exists>c'. batch_insert_mentions mysql ''now'' empty_store [example_mention, example_mention]
               = (Inr (1, 1), c')
          \<and> length (filter (\<lambda>r. mention_key r = mention_key example_mention) (table_rows c')) = 1"
    using batch_insert_mentions_dedup [where c = empty_store and m = example_mention
        and now = "''now''", THEN conjunct2, THEN conjunct2] h
    by blast
  have ts: "time_stamp example_mention = None" by (simp add: example_mention_def)
  have e: "execute_insert mysql \<lparr> table_rows = [example_mention], txn_rows = [] \<rparr>
        (example_mention\<lparr>time_stamp := Some ''now''\<rparr>)
       = (Inl (MySQLError ''1062 (23000): Duplicate entry for key celebrity_mentions''),
          \<lparr> table_rows = [example_mention], txn_rows = [] \<rparr>)"
    by (simp add: mysql_def)
  have l: "insert_loop mysql ''now'' [example_mention] \<lparr> table_rows = [example_mention], txn_rows = [] \<rparr> 0 0
       = (None, \<lparr> table_rows = [example_mention], txn_rows = [] \<rparr>, 0, 1)"
    using batch_insert_mentions_dedup [where db = mysql and m = example_mention
        and now = "''now''" and conn = "\<lparr> table_rows = [example_mention], txn_rows = [] \<rparr>"
        and conn' = "\<lparr> table_rows = [example_mention], txn_rows = [] \<rparr>"
        and msg = "''1062 (23000): Duplicate entry for key celebrity_mentions''"
        and ms = "[]" and inserted = 0 and skipped = 0, THEN conjunct1] e ts
    by simp
  show ?thesis using h a e l by blast
qed

end
